theory Spec2Isabelle
  imports Main
begin

text \<open>
  A model of the SMTP-to-Graph relay of \<open>main.go\<close>: the transaction store
  (\<open>TransactionManager\<close>), the session methods \<open>Mail\<close>, \<open>Rcpt\<close>, \<open>Data\<close>, \<open>Reset\<close>
  and \<open>Logout\<close>, the content transformer \<open>processEmail\<close> and the delivery client
  \<open>sendMail\<close>. Each method runs from its first statement to its return without
  interleaving; the locks and the log output are left out. The clock, the UUID of a
  session, the MIME parser and the HTTP endpoint are inputs of the model.
\<close>

section \<open>Library functions the relay calls\<close>

text \<open>
  Go strings are byte sequences; they are modelled as \<open>string\<close> (a list of 8-bit
  characters). The relay compares addresses with \<open>strings.EqualFold\<close> and
  \<open>strings.ToLower\<close>, which work on Unicode code points with the tables of the Go
  library. The model does not fix these two functions: the functions of the relay take
  them as arguments (\<open>strings_EqualFold\<close> and \<open>strings_ToLower\<close> of the record
  \<open>collaborators\<close> below), and the theorems hold for whatever they compute.

  \<open>asciiToLower\<close> and \<open>asciiEqualFold\<close> are the two functions on ASCII strings, where
  case folding is the exchange of \<open>A..Z\<close> with \<open>a..z\<close>. They stand for the library
  only in the example inputs, whose addresses are ASCII.
\<close>

definition lowerByte :: "char \<Rightarrow> char" where
  "lowerByte c =
     (case map_of (zip ''ABCDEFGHIJKLMNOPQRSTUVWXYZ'' ''abcdefghijklmnopqrstuvwxyz'') c of
        None \<Rightarrow> c
      | Some d \<Rightarrow> d)"

definition asciiToLower :: "string \<Rightarrow> string" where
  "asciiToLower s = map lowerByte s"

definition asciiEqualFold :: "string \<Rightarrow> string \<Rightarrow> bool" where
  "asciiEqualFold s t = (asciiToLower s = asciiToLower t)"

text \<open>\<open>strings.Contains(s, substr)\<close>.\<close>

fun Contains :: "string \<Rightarrow> string \<Rightarrow> bool" where
  "Contains [] substr = (substr = [])"
| "Contains (c # cs) substr =
     (take (length substr) (c # cs) = substr \<or> Contains cs substr)"

text \<open>\<open>strings.Trim(s, cutset)\<close>: all leading and trailing bytes of the cutset are removed.\<close>

definition Trim :: "string \<Rightarrow> string \<Rightarrow> string" where
  "Trim s cutset =
     rev (dropWhile (\<lambda>c. c \<in> set cutset) (rev (dropWhile (\<lambda>c. c \<in> set cutset) s)))"

text \<open>
  \<open>strings.ReplaceAll(s, old, new)\<close>: the non-overlapping occurrences of \<open>old\<close> are
  replaced from left to right. The relay only calls it with an \<open>old\<close> that starts with
  \<open>cid:\<close>; for an empty \<open>old\<close> (where Go inserts \<open>new\<close> around every rune) the model
  returns \<open>s\<close>.
\<close>

function ReplaceAll :: "string \<Rightarrow> string \<Rightarrow> string \<Rightarrow> string" where
  "ReplaceAll [] old new = []"
| "ReplaceAll (c # cs) old new =
     (if old \<noteq> [] \<and> take (length old) (c # cs) = old
      then new @ ReplaceAll (drop (length old) (c # cs)) old new
      else c # ReplaceAll cs old new)"
  by pat_completeness auto
termination
  by (relation "measure (\<lambda>(s, old, new). length s)") (auto simp: neq_Nil_conv)

text \<open>The verb \<open>%d\<close> of \<open>fmt.Sprintf\<close> on an integer.\<close>

fun digits :: "nat \<Rightarrow> string" where
  "digits n =
     (if n < 10 then [''0123456789'' ! n]
      else digits (n div 10) @ [''0123456789'' ! (n mod 10)])"

declare digits.simps [simp del]

definition fmt_d :: "int \<Rightarrow> string" where
  "fmt_d i = (if i < 0 then CHR ''-'' # digits (nat (- i)) else digits (nat i))"

text \<open>\<open>base64.StdEncoding.EncodeToString\<close>: the standard alphabet, padded with \<open>=\<close>.\<close>

definition encodeStd :: string where
  "encodeStd = ''ABCDEFGHIJKLMNOPQRSTUVWXYZabcdefghijklmnopqrstuvwxyz0123456789+/''"

fun encodeBytes :: "nat list \<Rightarrow> string" where
  "encodeBytes (a # b # c # rest) =
     [encodeStd ! (a div 4), encodeStd ! ((a mod 4) * 16 + b div 16),
      encodeStd ! ((b mod 16) * 4 + c div 64), encodeStd ! (c mod 64)] @ encodeBytes rest"
| "encodeBytes [a, b] =
     [encodeStd ! (a div 4), encodeStd ! ((a mod 4) * 16 + b div 16),
      encodeStd ! ((b mod 16) * 4), CHR ''='']"
| "encodeBytes [a] =
     [encodeStd ! (a div 4), encodeStd ! ((a mod 4) * 16), CHR ''='', CHR ''='']"
| "encodeBytes [] = []"

definition EncodeToString :: "string \<Rightarrow> string" where
  "EncodeToString src = encodeBytes (map of_char src)"

section \<open>The transaction and its recipient list\<close>

text \<open>
  \<open>type EmailTransaction struct\<close>. The fields \<open>from\<close> and \<open>to\<close> are named \<open>t_from\<close>
  and \<open>t_to\<close> here (\<open>from\<close> is a keyword of the proof language), and a variable
  \<open>trans\<close> of the source is written \<open>tx\<close> (\<open>trans\<close> is a constant of HOL).
\<close>

record EmailTransaction =
  t_from :: string
  t_to :: "string list"
  t_cc :: "string list"
  t_bcc :: "string list"
  dataBuffers :: "string list"

text \<open>\<open>&EmailTransaction{from: from}\<close>: every other field has its zero value.\<close>

definition newTransaction :: "string \<Rightarrow> EmailTransaction" where
  "newTransaction frm = \<lparr>t_from = frm, t_to = [], t_cc = [], t_bcc = [], dataBuffers = []\<rparr>"

text \<open>
  The \<open>range\<close> loop of \<open>addRecipient\<close>: is \<open>strings.EqualFold(r, rcpt)\<close> true of an
  entry \<open>r\<close>? The argument \<open>equalFold\<close> is \<open>strings.EqualFold\<close>.
\<close>

fun hasRecipient :: "(string \<Rightarrow> string \<Rightarrow> bool) \<Rightarrow> string list \<Rightarrow> string \<Rightarrow> bool" where
  "hasRecipient equalFold [] rcpt = False"
| "hasRecipient equalFold (r # rs) rcpt =
     (if equalFold r rcpt then True else hasRecipient equalFold rs rcpt)"

definition addRecipient ::
  "(string \<Rightarrow> string \<Rightarrow> bool) \<Rightarrow> EmailTransaction \<Rightarrow> string \<Rightarrow> EmailTransaction" where
  "addRecipient equalFold e rcpt =
     (if hasRecipient equalFold (t_to e) rcpt then e else e\<lparr>t_to := t_to e @ [rcpt]\<rparr>)"

definition appendData :: "EmailTransaction \<Rightarrow> string \<Rightarrow> EmailTransaction" where
  "appendData e content = e\<lparr>dataBuffers := dataBuffers e @ [content]\<rparr>"

definition resetDataBuffers :: "EmailTransaction \<Rightarrow> EmailTransaction" where
  "resetDataBuffers e = e\<lparr>dataBuffers := []\<rparr>"

definition resetAll :: "EmailTransaction \<Rightarrow> EmailTransaction" where
  "resetAll e = resetDataBuffers (e\<lparr>t_from := [], t_to := []\<rparr>)"

section \<open>The shared transaction store\<close>

text \<open>
  \<open>type TransactionManager struct\<close>: the two Go maps are partial functions from keys.
  A \<open>time.Time\<close> is an integer count of nanoseconds; \<open>now.Sub(t)\<close> is the difference
  (inside the range of \<open>int64\<close>, where Go does not saturate). Every row of
  \<open>transactions\<close> is reached through one key only (\<open>Data\<close> deletes the old key when it
  stores the pointer under the new one), so the pointers are modelled by the rows
  themselves.
\<close>

record TransactionManager =
  transactions :: "string \<rightharpoonup> EmailTransaction"
  timeouts :: "string \<rightharpoonup> int"

definition NewTransactionManager :: TransactionManager where
  "NewTransactionManager = \<lparr>transactions = Map.empty, timeouts = Map.empty\<rparr>"

definition Second :: int where
  "Second = 1000000000"

definition Minute :: int where
  "Minute = 60 * Second"

text \<open>
  One tick of \<open>cleanup\<close>: under the lock, every key whose timestamp is more than five
  minutes old is deleted from both maps.
\<close>

definition cleanup :: "TransactionManager \<Rightarrow> int \<Rightarrow> TransactionManager" where
  "cleanup tm now =
     tm\<lparr>transactions :=
          (\<lambda>key. case timeouts tm key of
                    None \<Rightarrow> transactions tm key
                  | Some timeout \<Rightarrow>
                      if now - timeout > 5 * Minute then None else transactions tm key),
        timeouts :=
          (\<lambda>key. case timeouts tm key of
                    None \<Rightarrow> None
                  | Some timeout \<Rightarrow>
                      if now - timeout > 5 * Minute then None else Some timeout)\<rparr>"

section \<open>The parsed message\<close>

text \<open>
  Parsing is done by the go-message library. What the relay reads from a parsed message
  is recorded here. \<open>entity\<close> is the result of \<open>message.Read\<close> as \<open>Data\<close> and
  \<open>processEmailContent\<close> use it: \<open>Header.Get("Subject")\<close> and the address lists of the
  \<open>From\<close> and \<open>To\<close> headers (\<open>Inl\<close> when \<open>AddressList\<close> returns an error, else the
  addresses in order).
\<close>

record entity =
  e_Subject :: string
  e_From :: "string + string list"
  e_To :: "string + string list"

text \<open>
  What \<open>processEmail\<close> reads from the \<open>mail.Reader\<close>: \<open>Header.Subject()\<close>, the
  address lists of \<open>To\<close> and \<open>Cc\<close>, and the results of the successive \<open>NextPart()\<close>
  calls up to \<open>io.EOF\<close>. A part comes with a \<open>mail.InlineHeader\<close> (its media type from
  \<open>ContentType()\<close>, its \<open>Content-ID\<close> header, the bytes read from its body) or with a
  \<open>mail.AttachmentHeader\<close> (file name, media type, bytes); \<open>NextErr\<close> is a call that
  returned an error other than \<open>io.EOF\<close>.
\<close>

datatype next_part =
    NextErr string
  | InlinePart string string string
  | AttachmentPart string string string

record mail_reader =
  r_Subject :: string
  r_To :: "string + string list"
  r_Cc :: "string + string list"
  r_parts :: "next_part list"

text \<open>
  The collaborators outside the repository: the two parsers, the outcome of the
  \<open>n\<close>-th call of \<open>doSendMail\<close> within one \<open>sendMail\<close> (token request and POST;
  \<open>None\<close> is a \<open>nil\<close> error, that is HTTP status 202), and the two functions
  \<open>strings.EqualFold\<close> and \<open>strings.ToLower\<close> of the Go library.
\<close>

record graph_attachment =
  odata_type :: string
  name :: string
  att_contentType :: string
  contentBytes :: string

datatype recipient = EmailAddress string

record graph_message =
  subject :: string
  body_contentType :: string
  body_content :: string
  toRecipients :: "recipient list"
  ccRecipients :: "recipient list"
  bccRecipients :: "recipient list"
  attachments :: "graph_attachment list"
  saveToSentItems :: bool

record collaborators =
  message_Read :: "string \<Rightarrow> string + entity"
  mail_CreateReader :: "string \<Rightarrow> string + mail_reader"
  doSendMail :: "nat \<Rightarrow> string \<Rightarrow> graph_message \<Rightarrow> string option"
  strings_EqualFold :: "string \<Rightarrow> string \<Rightarrow> bool"
  strings_ToLower :: "string \<Rightarrow> string"

section \<open>The delivery client\<close>

text \<open>
  What a send does to the outside, in order: a \<open>time.Sleep\<close> (its duration in
  nanoseconds) or one call of \<open>doSendMail\<close> (sender and payload).
\<close>

datatype effect = Sleep int | Post string graph_message

definition buildRecipients :: "string list \<Rightarrow> recipient list" where
  "buildRecipients list = (if length list = 0 then [] else map EmailAddress list)"

definition buildGraphMessage ::
  "string \<Rightarrow> string \<Rightarrow> string \<Rightarrow> string list \<Rightarrow> string list \<Rightarrow> string list \<Rightarrow>
   graph_attachment list \<Rightarrow> graph_message" where
  "buildGraphMessage subj bodyContentType messageBody toList ccList bccList atts =
     \<lparr>subject = subj, body_contentType = bodyContentType, body_content = messageBody,
      toRecipients = buildRecipients toList, ccRecipients = buildRecipients ccList,
      bccRecipients = buildRecipients bccList, attachments = atts,
      saveToSentItems = False\<rparr>"

definition maxRetries :: nat where
  "maxRetries = 3"

text \<open>
  The loop of \<open>sendMail\<close> from \<open>attempt\<close> on, with the effects so far. The backoff is
  \<open>time.Second * time.Duration(1<<attempt)\<close>.
\<close>

function sendMail_loop ::
  "(nat \<Rightarrow> string \<Rightarrow> graph_message \<Rightarrow> string option) \<Rightarrow> string \<Rightarrow> graph_message \<Rightarrow>
   nat \<Rightarrow> string option \<Rightarrow> effect list \<Rightarrow> string option \<times> effect list" where
  "sendMail_loop send sender payload attempt lastErr effs =
     (if attempt < maxRetries then
        (let effs1 = (if attempt > 0 then effs @ [Sleep (Second * 2 ^ attempt)] else effs);
             effs2 = effs1 @ [Post sender payload]
         in case send attempt sender payload of
              Some err \<Rightarrow>
                if \<not> Contains err ''MailboxInfoStale'' then (Some err, effs2)
                else sendMail_loop send sender payload (Suc attempt) (Some err) effs2
            | None \<Rightarrow> (None, effs2))
      else
        (Some (''failed after '' @ fmt_d (int maxRetries) @ '' retries. Last error: '' @
               (case lastErr of None \<Rightarrow> ''<nil>'' | Some e \<Rightarrow> e)),
         effs))"
  by pat_completeness auto
termination
  by (relation "measure (\<lambda>(send, sender, payload, attempt, lastErr, effs). maxRetries - attempt)")
     auto

declare sendMail_loop.simps [simp del]

definition sendMail ::
  "(nat \<Rightarrow> string \<Rightarrow> graph_message \<Rightarrow> string option) \<Rightarrow> string \<Rightarrow> graph_message \<Rightarrow>
   string option \<times> effect list" where
  "sendMail send sender payload = sendMail_loop send sender payload 0 None []"

section \<open>The content transformer\<close>

definition imageTypes :: "string list" where
  "imageTypes = [''image/png'', ''image/jpeg'', ''image/jpg'', ''image/bmp'', ''image/gif'']"

definition fileAttachment :: "string \<Rightarrow> string \<Rightarrow> string \<Rightarrow> graph_attachment" where
  "fileAttachment filename ctype attachmentBytes =
     \<lparr>odata_type = ''#microsoft.graph.fileAttachment'', name = filename,
      att_contentType = ctype, contentBytes = EncodeToString attachmentBytes\<rparr>"

text \<open>
  The \<open>for\<close> loop of \<open>processEmail\<close> over the parts, with the variables \<open>textBody\<close>,
  \<open>htmlBody\<close> and \<open>attachments\<close> it updates. An image part rewrites the HTML body held at
  that moment, and only when it is not empty.
\<close>

fun walkParts ::
  "next_part list \<Rightarrow> string \<Rightarrow> string \<Rightarrow> graph_attachment list \<Rightarrow>
   string + (string \<times> string \<times> graph_attachment list)" where
  "walkParts [] textBody htmlBody atts = Inr (textBody, htmlBody, atts)"
| "walkParts (NextErr err # ps) textBody htmlBody atts =
     Inl (''failed to read MIME part: '' @ err)"
| "walkParts (InlinePart contentType cidHeader bodyBytes # ps) textBody htmlBody atts =
     (if contentType = ''text/plain'' then
        walkParts ps (if textBody = [] then bodyBytes else textBody) htmlBody atts
      else if contentType = ''text/html'' then
        walkParts ps textBody (if htmlBody = [] then bodyBytes else htmlBody) atts
      else if contentType \<in> set imageTypes then
        (let contentID = Trim cidHeader ''<>'';
             base64Image = EncodeToString bodyBytes
         in walkParts ps textBody
              (if htmlBody \<noteq> []
               then ReplaceAll htmlBody (''cid:'' @ contentID)
                      (''data:'' @ contentType @ '';base64,'' @ base64Image)
               else htmlBody)
              atts)
      else walkParts ps textBody htmlBody atts)"
| "walkParts (AttachmentPart filename contentType attachmentBytes # ps) textBody htmlBody atts =
     walkParts ps textBody htmlBody (atts @ [fileAttachment filename contentType attachmentBytes])"

definition addrs :: "string + string list \<Rightarrow> string list" where
  "addrs r = (case r of Inl err \<Rightarrow> [] | Inr l \<Rightarrow> l)"

text \<open>
  \<open>processEmail\<close> up to the call of \<open>buildGraphMessage\<close>: the error it returns, or the
  payload it hands to \<open>sendMail\<close>. \<open>rcptMap\<close> is the set of the keys stored with \<open>true\<close>.
\<close>

definition processEmail_message :: "collaborators \<Rightarrow> EmailTransaction \<Rightarrow> string + graph_message" where
  "processEmail_message lib tx =
     (if t_from tx = [] \<or> length (t_to tx) = 0 \<or> length (dataBuffers tx) = 0
      then Inl ''invalid email transaction: missing required fields''
      else
        case mail_CreateReader lib (concat (dataBuffers tx)) of
          Inl err \<Rightarrow> Inl (''failed to parse email: '' @ err)
        | Inr msg \<Rightarrow>
            (let subj = (if r_Subject msg \<noteq> [] then r_Subject msg else ''No Subject'');
                 toList = addrs (r_To msg);
                 ccList = addrs (r_Cc msg);
                 rcptMap = set (map (strings_ToLower lib) toList) \<union>
                           set (map (strings_ToLower lib) ccList);
                 bccList = filter (\<lambda>rcpt. strings_ToLower lib rcpt \<notin> rcptMap) (t_to tx)
             in case walkParts (r_parts msg) [] [] [] of
                  Inl err \<Rightarrow> Inl err
                | Inr (textBody, htmlBody, atts) \<Rightarrow>
                    (let messageBody = (if htmlBody \<noteq> [] then htmlBody else textBody);
                         bodyContentType = (if htmlBody \<noteq> [] then ''HTML'' else ''Text'')
                     in if messageBody = [] then Inl ''email has no body content''
                        else Inr (buildGraphMessage subj bodyContentType messageBody
                                    toList ccList bccList atts))))"

text \<open>\<open>processEmail\<close>: the error returned (\<open>None\<close> is \<open>nil\<close>) and what was done to the outside.\<close>

definition processEmail :: "collaborators \<Rightarrow> EmailTransaction \<Rightarrow> string option \<times> effect list" where
  "processEmail lib tx =
     (case processEmail_message lib tx of
        Inl err \<Rightarrow> (Some err, [])
      | Inr graphMessage \<Rightarrow>
          (case sendMail (doSendMail lib) (t_from tx) graphMessage of
             (Some err, effs) \<Rightarrow> (Some (''failed to send email: '' @ err), effs)
           | (None, effs) \<Rightarrow> (None, effs)))"

section \<open>The session\<close>

record Session =
  sessionID :: string
  currentKey :: string
  activeEmail :: string
  pendingKeys :: "string list"

text \<open>\<open>Backend.NewSession\<close>; the fresh UUID is an argument.\<close>

definition NewSession :: "string \<Rightarrow> Session" where
  "NewSession uuid = \<lparr>sessionID = uuid, currentKey = [], activeEmail = [], pendingKeys = []\<rparr>"

text \<open>
  What a method of the session does: it returns \<open>nil\<close>, returns an error, or panics
  (a write through a \<open>nil\<close> transaction pointer).
\<close>

datatype outcome = Ok | Err string | Panic string

text \<open>
  \<open>Mail\<close>. The two readings of the clock are arguments: \<open>transactionTime\<close> is
  \<open>time.Now().UnixNano()\<close>, \<open>now\<close> the later \<open>time.Now()\<close>.
\<close>

definition Mail ::
  "Session \<Rightarrow> TransactionManager \<Rightarrow> string \<Rightarrow> int \<Rightarrow> int \<Rightarrow>
   outcome \<times> Session \<times> TransactionManager" where
  "Mail s g frm transactionTime now =
     (let s1 = s\<lparr>activeEmail := frm\<rparr>;
          s2 = s1\<lparr>currentKey := sessionID s1 @ '':'' @ frm @ '':'' @ fmt_d transactionTime\<rparr>;
          tx = newTransaction frm;
          g1 = g\<lparr>transactions := (transactions g)(currentKey s2 \<mapsto> tx)\<rparr>;
          g2 = g1\<lparr>timeouts := (timeouts g1)(currentKey s2 \<mapsto> now)\<rparr>
      in (Ok, s2, g2))"

definition Rcpt ::
  "collaborators \<Rightarrow> Session \<Rightarrow> TransactionManager \<Rightarrow> string \<Rightarrow> int \<Rightarrow>
   outcome \<times> Session \<times> TransactionManager" where
  "Rcpt lib s g rcpt now =
     (if currentKey s = [] then (Err ''no active transaction'', s, g)
      else
        case transactions g (currentKey s) of
          None \<Rightarrow> (Err ''transaction not found'', s, g)
        | Some tx \<Rightarrow>
            (Ok, s,
             g\<lparr>transactions :=
                 (transactions g)(currentKey s \<mapsto> addRecipient (strings_EqualFold lib) tx rcpt),
               timeouts := (timeouts g)(currentKey s \<mapsto> now)\<rparr>))"

text \<open>
  \<open>processEmailContent\<close> on the pointer \<open>trans\<close> (\<open>None\<close> is \<open>nil\<close>). It has no \<open>nil\<close>
  check; its last statement \<open>trans.appendData(data)\<close> writes through the pointer whatever
  the headers are, so a \<open>nil\<close> pointer always ends in a panic.
\<close>

definition processEmailContent ::
  "collaborators \<Rightarrow> entity \<Rightarrow> string \<Rightarrow> EmailTransaction option \<Rightarrow>
   outcome \<times> EmailTransaction option" where
  "processEmailContent lib msg data ptr =
     (case ptr of
        None \<Rightarrow> (Panic ''runtime error: invalid memory address or nil pointer dereference'', None)
      | Some tx \<Rightarrow>
          (let tx1 = (case e_From msg of
                           Inr (a # as) \<Rightarrow> tx\<lparr>t_from := a\<rparr>
                         | _ \<Rightarrow> tx);
               tx2 = (case e_To msg of
                           Inr tos \<Rightarrow> foldl (addRecipient (strings_EqualFold lib)) tx1 tos
                         | Inl err \<Rightarrow> tx1)
           in (Ok, Some (appendData tx2 data))))"

text \<open>
  \<open>Data\<close>. The reader \<open>r\<close> is what \<open>io.Copy\<close> makes of it: \<open>Inl\<close> a read error, \<open>Inr\<close>
  the bytes. The row is moved to the key with the subject only when it exists under the
  current key; \<open>processEmailContent\<close> then gets whatever the store holds under the final
  key.
\<close>

definition Data ::
  "collaborators \<Rightarrow> Session \<Rightarrow> TransactionManager \<Rightarrow> string + string \<Rightarrow> int \<Rightarrow>
   outcome \<times> Session \<times> TransactionManager" where
  "Data lib s g r now =
     (if currentKey s = [] then (Err ''no active transaction'', s, g)
      else
        case r of
          Inl err \<Rightarrow> (Err err, s, g)
        | Inr tempBuffer \<Rightarrow>
            (case message_Read lib tempBuffer of
               Inl err \<Rightarrow> (Err err, s, g)
             | Inr msg \<Rightarrow>
                 (let subj = (if e_Subject msg = [] then ''No Subject'' else e_Subject msg);
                      finalKey = sessionID s @ '':'' @ activeEmail s @ '':'' @ subj;
                      (s1, g1) =
                        (case transactions g (currentKey s) of
                           None \<Rightarrow> (s, g)
                         | Some tx \<Rightarrow>
                             (s\<lparr>currentKey := finalKey\<rparr>,
                              g\<lparr>transactions :=
                                  ((transactions g)(finalKey \<mapsto> tx))(currentKey s := None),
                                timeouts :=
                                  ((timeouts g)(finalKey \<mapsto> now))(currentKey s := None)\<rparr>))
                  in case processEmailContent lib msg tempBuffer (transactions g1 finalKey) of
                       (res, ptr) \<Rightarrow>
                         (res, s1, g1\<lparr>transactions := (transactions g1)(finalKey := ptr)\<rparr>))))"

definition Reset :: "Session \<Rightarrow> TransactionManager \<Rightarrow> Session \<times> TransactionManager" where
  "Reset s g =
     (s\<lparr>currentKey := [], activeEmail := [], pendingKeys := []\<rparr>,
      if currentKey s \<noteq> []
      then g\<lparr>transactions := (transactions g)(currentKey s := None),
             timeouts := (timeouts g)(currentKey s := None)\<rparr>
      else g)"

text \<open>
  \<open>Logout\<close>: when \<open>processEmail\<close> returns an error, the method returns it at once; the
  two \<open>delete\<close> calls come after that \<open>return\<close>.
\<close>

definition Logout ::
  "collaborators \<Rightarrow> Session \<Rightarrow> TransactionManager \<Rightarrow>
   outcome \<times> Session \<times> TransactionManager \<times> effect list" where
  "Logout lib s g =
     (if currentKey s = [] then (Ok, s, g, [])
      else
        case transactions g (currentKey s) of
          None \<Rightarrow> (Ok, s, g, [])
        | Some tx \<Rightarrow>
            (case processEmail lib tx of
               (Some err, effs) \<Rightarrow> (Err err, s, g, effs)
             | (None, effs) \<Rightarrow>
                 (Ok, s,
                  g\<lparr>transactions := (transactions g)(currentKey s := None),
                    timeouts := (timeouts g)(currentKey s := None)\<rparr>,
                  effs)))"

section \<open>Notions of the specification\<close>

text \<open>
  No two entries of a recipient list are equal under the case-insensitive comparison
  \<open>equalFold\<close>.
\<close>

fun noFoldDup :: "(string \<Rightarrow> string \<Rightarrow> bool) \<Rightarrow> string list \<Rightarrow> bool" where
  "noFoldDup equalFold [] = True"
| "noFoldDup equalFold (x # xs) =
     (list_all (\<lambda>y. \<not> equalFold x y) xs \<and> noFoldDup equalFold xs)"

text \<open>
  The distinct addresses of a sequence of RCPT arguments in first-seen order: the
  argument at position \<open>i\<close> is kept when no earlier argument is equal to it under
  case-insensitive comparison.
\<close>

definition firstSeen :: "(string \<Rightarrow> string \<Rightarrow> bool) \<Rightarrow> string list \<Rightarrow> string list" where
  "firstSeen equalFold rs =
     map (\<lambda>i. rs ! i)
       (filter (\<lambda>i. list_all (\<lambda>j. \<not> equalFold (rs ! j) (rs ! i)) [0..<i]) [0..<length rs])"

text \<open>A sequence of \<open>Rcpt\<close> calls of one session, each with its reading of the clock.\<close>

fun rcptSeq ::
  "collaborators \<Rightarrow> Session \<Rightarrow> TransactionManager \<Rightarrow> (string \<times> int) list \<Rightarrow>
   outcome list \<times> Session \<times> TransactionManager" where
  "rcptSeq lib s g [] = ([], s, g)"
| "rcptSeq lib s g ((rcpt, now) # rest) =
     (case Rcpt lib s g rcpt now of
        (res, s1, g1) \<Rightarrow>
          (case rcptSeq lib s1 g1 rest of (ress, s2, g2) \<Rightarrow> (res # ress, s2, g2)))"

section \<open>Example inputs\<close>

text \<open>A session after \<open>MAIL FROM:<a@co>\<close> at time 1000, and the store it left.\<close>

definition ex_session :: Session where
  "ex_session = \<lparr>sessionID = ''u1'', currentKey = ''u1:a@co:1000'', activeEmail = ''a@co'', pendingKeys = []\<rparr>"

definition ex_store :: TransactionManager where
  "ex_store = \<lparr>transactions = [''u1:a@co:1000'' \<mapsto> newTransaction ''a@co''],
               timeouts = [''u1:a@co:1000'' \<mapsto> 1000]\<rparr>"

definition ex_row :: EmailTransaction where
  "ex_row = \<lparr>t_from = ''a@co'', t_to = [''b@co''], t_cc = [], t_bcc = [], dataBuffers = []\<rparr>"

definition ex_entity :: entity where
  "ex_entity = \<lparr>e_Subject = ''Hi'', e_From = Inr [], e_To = Inr [''B@co'', ''c@co'']\<rparr>"

section \<open>Runs of one session\<close>

text \<open>
  The protocol engine calls the methods of a session one after the other; between two
  calls the cleanup goroutine may run a tick. \<open>run\<close> starts from a new session and an
  empty store and records what each method returned and what was done to the outside.
\<close>

datatype command =
    MAIL string int int
  | RCPT string int
  | DATA "string + string" int
  | RSET
  | QUIT
  | CLEANUP int

record relay =
  session :: Session
  store :: TransactionManager
  replies :: "outcome list"
  effects :: "effect list"

fun step :: "collaborators \<Rightarrow> relay \<Rightarrow> command \<Rightarrow> relay" where
  "step lib w (MAIL frm transactionTime now) =
     (case Mail (session w) (store w) frm transactionTime now of
        (res, s, g) \<Rightarrow> w\<lparr>session := s, store := g, replies := replies w @ [res]\<rparr>)"
| "step lib w (RCPT rcpt now) =
     (case Rcpt lib (session w) (store w) rcpt now of
        (res, s, g) \<Rightarrow> w\<lparr>session := s, store := g, replies := replies w @ [res]\<rparr>)"
| "step lib w (DATA r now) =
     (case Data lib (session w) (store w) r now of
        (res, s, g) \<Rightarrow> w\<lparr>session := s, store := g, replies := replies w @ [res]\<rparr>)"
| "step lib w RSET =
     (case Reset (session w) (store w) of
        (s, g) \<Rightarrow> w\<lparr>session := s, store := g\<rparr>)"
| "step lib w QUIT =
     (case Logout lib (session w) (store w) of
        (res, s, g, effs) \<Rightarrow>
          w\<lparr>session := s, store := g, replies := replies w @ [res],
            effects := effects w @ effs\<rparr>)"
| "step lib w (CLEANUP now) = w\<lparr>store := cleanup (store w) now\<rparr>"

definition run :: "collaborators \<Rightarrow> string \<Rightarrow> command list \<Rightarrow> relay" where
  "run lib uuid cmds =
     foldl (step lib)
       \<lparr>session = NewSession uuid, store = NewTransactionManager, replies = [], effects = []\<rparr>
       cmds"

text \<open>The durations of the sleeps among the effects, in order.\<close>

fun sleeps :: "effect list \<Rightarrow> int list" where
  "sleeps [] = []"
| "sleeps (Sleep d # es) = d # sleeps es"
| "sleeps (Post sender payload # es) = sleeps es"

text \<open>
  A message with the headers \<open>To: b@co\<close> and \<open>Subject: Hi\<close> and the plain-text body
  \<open>hello\<close>, as the two parsers return it; the same message without a \<open>To\<close> header;
  a Graph endpoint that answers the first two posts with the stale-mailbox error and
  accepts the third, and one that refuses every post.
\<close>

definition ex_entity_hi :: entity where
  "ex_entity_hi = \<lparr>e_Subject = ''Hi'', e_From = Inr [], e_To = Inr [''b@co'']\<rparr>"

definition ex_entity_noto :: entity where
  "ex_entity_noto = \<lparr>e_Subject = ''Hi'', e_From = Inr [], e_To = Inr []\<rparr>"

definition ex_reader :: "string list \<Rightarrow> next_part list \<Rightarrow> mail_reader" where
  "ex_reader tos ps = \<lparr>r_Subject = ''Hi'', r_To = Inr tos, r_Cc = Inr [], r_parts = ps\<rparr>"

definition ex_reader_hi :: mail_reader where
  "ex_reader_hi = ex_reader [''b@co''] [InlinePart ''text/plain'' [] ''hello'']"

definition staleTwice :: "nat \<Rightarrow> string \<Rightarrow> graph_message \<Rightarrow> string option" where
  "staleTwice n sender payload =
     (if n < 2 then Some ''graph API error: ErrorMailboxInfoStale'' else None)"

definition alwaysDenied :: "nat \<Rightarrow> string \<Rightarrow> graph_message \<Rightarrow> string option" where
  "alwaysDenied n sender payload = Some ''graph API error: ErrorAccessDenied''"

definition ex_lib ::
  "entity \<Rightarrow> mail_reader \<Rightarrow> (nat \<Rightarrow> string \<Rightarrow> graph_message \<Rightarrow> string option) \<Rightarrow>
   collaborators" where
  "ex_lib ent rd send =
     \<lparr>message_Read = (\<lambda>raw. Inr ent), mail_CreateReader = (\<lambda>raw. Inr rd), doSendMail = send,
      strings_EqualFold = asciiEqualFold, strings_ToLower = asciiToLower\<rparr>"

definition ex_payload :: graph_message where
  "ex_payload = buildGraphMessage ''Hi'' ''Text'' ''hello'' [''b@co''] [] [] []"

text \<open>
  The inline image \<open>logo\<close> and an HTML body that refers to it; a row with the two
  recipients \<open>a@x\<close> and \<open>b@x\<close>.
\<close>

definition ex_image :: next_part where
  "ex_image = InlinePart ''image/png'' ''<logo>'' ''PNG''"

definition ex_html :: next_part where
  "ex_html = InlinePart ''text/html'' [] ''<img src=cid:logo>''"

definition ex_row2 :: EmailTransaction where
  "ex_row2 =
     \<lparr>t_from = ''s@x'', t_to = [''a@x'', ''b@x''], t_cc = [], t_bcc = [],
      dataBuffers = [''raw'']\<rparr>"

section \<open>Notions of the specification: the body of the message\<close>

text \<open>A call of \<open>NextPart\<close> that failed.\<close>

fun readError :: "next_part \<Rightarrow> bool" where
  "readError (NextErr err) = True"
| "readError (InlinePart contentType cidHeader bodyBytes) = False"
| "readError (AttachmentPart filename contentType attachmentBytes) = False"

text \<open>
  The body of the first inline part of media type \<open>ctype\<close> whose body is not empty;
  empty when there is none.
\<close>

fun firstBody :: "string \<Rightarrow> next_part list \<Rightarrow> string" where
  "firstBody ctype [] = []"
| "firstBody ctype (InlinePart contentType cidHeader bodyBytes # ps) =
     (if contentType = ctype \<and> bodyBytes \<noteq> [] then bodyBytes else firstBody ctype ps)"
| "firstBody ctype (NextErr err # ps) = firstBody ctype ps"
| "firstBody ctype (AttachmentPart filename contentType attachmentBytes # ps) =
     firstBody ctype ps"

text \<open>
  The substitution one inline image part stands for: every \<open>cid:<id>\<close> of the HTML
  becomes \<open>data:<type>;base64,<payload>\<close>. Any other part leaves the HTML as it is.
\<close>

fun substitute :: "string \<Rightarrow> next_part \<Rightarrow> string" where
  "substitute html (InlinePart contentType cidHeader bodyBytes) =
     (if contentType \<in> set imageTypes
      then ReplaceAll html (''cid:'' @ Trim cidHeader ''<>'')
             (''data:'' @ contentType @ '';base64,'' @ EncodeToString bodyBytes)
      else html)"
| "substitute html (NextErr err) = html"
| "substitute html (AttachmentPart filename contentType attachmentBytes) = html"

text \<open>A plain-text part, an HTML part without references, and an attachment.\<close>

definition ex_plain :: next_part where
  "ex_plain = InlinePart ''text/plain'' [] ''hello''"

definition ex_bold :: next_part where
  "ex_bold = InlinePart ''text/html'' [] ''<b>hello</b>''"

definition ex_file :: next_part where
  "ex_file = AttachmentPart ''f.txt'' ''text/plain'' ''data''"

section \<open>Recipients: case-insensitive deduplication\<close>

lemma hasRecipient_iff: "hasRecipient equalFold rs r \<longleftrightarrow> (\<exists>x\<in>set rs. equalFold x r)"
  by (induction rs) auto

lemma noFoldDup_snoc:
  "noFoldDup equalFold (xs @ [r]) \<longleftrightarrow>
   noFoldDup equalFold xs \<and> (\<forall>x\<in>set xs. \<not> equalFold x r)"
  by (induction xs) (auto simp: list_all_iff)

lemma addRecipient_noFoldDup:
  "noFoldDup equalFold (t_to e) \<Longrightarrow> noFoldDup equalFold (t_to (addRecipient equalFold e rcpt))"
  by (simp add: addRecipient_def noFoldDup_snoc hasRecipient_iff)

lemma foldl_addRecipient_noFoldDup:
  "noFoldDup equalFold (t_to e) \<Longrightarrow>
   noFoldDup equalFold (t_to (foldl (addRecipient equalFold) e rs))"
  by (induction rs arbitrary: e) (simp_all add: addRecipient_noFoldDup)

lemma firstSeen_snoc:
  "firstSeen equalFold (rs @ [r]) =
     firstSeen equalFold rs @ (if \<exists>x\<in>set rs. equalFold x r then [] else [r])"
proof -
  let ?P' = "\<lambda>i. list_all (\<lambda>j. \<not> equalFold ((rs @ [r]) ! j) ((rs @ [r]) ! i)) [0..<i]"
  let ?P = "\<lambda>i. list_all (\<lambda>j. \<not> equalFold (rs ! j) (rs ! i)) [0..<i]"
  have keep: "filter ?P' [0..<length rs] = filter ?P [0..<length rs]"
    by (rule filter_cong) (auto simp: list_all_iff nth_append)
  have same: "map ((!) (rs @ [r])) (filter ?P [0..<length rs]) = map ((!) rs) (filter ?P [0..<length rs])"
    by (rule map_cong) (auto simp: nth_append)
  have last: "?P' (length rs) \<longleftrightarrow> \<not> (\<exists>x\<in>set rs. equalFold x r)"
    by (auto simp: list_all_iff nth_append in_set_conv_nth) (metis nth_mem)
  have tail: "map ((!) (rs @ [r])) (filter ?P' [length rs]) =
      (if \<exists>x\<in>set rs. equalFold x r then [] else [r])"
    using last by (simp del: list_all_iff)
  have up: "[0..<length (rs @ [r])] = [0..<length rs] @ [length rs]"
    by simp
  have "firstSeen equalFold (rs @ [r]) =
      map ((!) (rs @ [r])) (filter ?P' [0..<length rs]) @
      map ((!) (rs @ [r])) (filter ?P' [length rs])"
    unfolding firstSeen_def up by (simp only: filter_append map_append)
  also have "\<dots> = firstSeen equalFold rs @ (if \<exists>x\<in>set rs. equalFold x r then [] else [r])"
    unfolding keep same tail by (simp only: firstSeen_def)
  finally show ?thesis .
qed

lemma set_firstSeen: "set (firstSeen equalFold rs) \<subseteq> set rs"
  by (auto simp: firstSeen_def)

text \<open>
  From here on the comparison is reflexive and transitive, as \<open>strings.EqualFold\<close> is:
  it compares the two strings code point by code point up to simple case folding.
\<close>

lemma firstSeen_covers:
  assumes rfl: "\<forall>a. equalFold a a"
    and trn: "\<forall>a b c. equalFold a b \<longrightarrow> equalFold b c \<longrightarrow> equalFold a c"
  shows "x \<in> set rs \<Longrightarrow> \<exists>y\<in>set (firstSeen equalFold rs). equalFold y x"
proof (induction rs arbitrary: x rule: rev_induct)
  case Nil
  then show ?case by simp
next
  case (snoc r rs)
  show ?case
  proof (cases "\<exists>x'\<in>set rs. equalFold x' r")
    case True
    then obtain x' where x': "x' \<in> set rs" "equalFold x' r" by blast
    from snoc.IH [OF x'(1)] obtain y where
      y: "y \<in> set (firstSeen equalFold rs)" "equalFold y x'" by blast
    have yr: "equalFold y r" using y(2) x'(2) trn by blast
    show ?thesis
    proof (cases "x = r")
      case True
      with y(1) yr show ?thesis by (auto simp: firstSeen_snoc)
    next
      case False
      with snoc.prems have "x \<in> set rs" by simp
      from snoc.IH [OF this] show ?thesis by (auto simp: firstSeen_snoc)
    qed
  next
    case False
    show ?thesis
    proof (cases "x = r")
      case True
      with False rfl show ?thesis by (auto simp: firstSeen_snoc)
    next
      case neq: False
      with snoc.prems have "x \<in> set rs" by simp
      from snoc.IH [OF this] show ?thesis by (auto simp: firstSeen_snoc)
    qed
  qed
qed

lemma hasRecipient_firstSeen:
  assumes rfl: "\<forall>a. equalFold a a"
    and trn: "\<forall>a b c. equalFold a b \<longrightarrow> equalFold b c \<longrightarrow> equalFold a c"
  shows "hasRecipient equalFold (firstSeen equalFold rs) r \<longleftrightarrow> (\<exists>x\<in>set rs. equalFold x r)"
proof
  assume "hasRecipient equalFold (firstSeen equalFold rs) r"
  then obtain y where "y \<in> set (firstSeen equalFold rs)" "equalFold y r"
    by (auto simp: hasRecipient_iff)
  with set_firstSeen [of equalFold rs] show "\<exists>x\<in>set rs. equalFold x r"
    by blast
next
  assume "\<exists>x\<in>set rs. equalFold x r"
  then obtain x where x: "x \<in> set rs" "equalFold x r"
    by blast
  from firstSeen_covers [OF rfl trn x(1)] obtain y where
    y: "y \<in> set (firstSeen equalFold rs)" "equalFold y x"
    by blast
  from y(2) x(2) trn have "equalFold y r"
    by blast
  with y(1) show "hasRecipient equalFold (firstSeen equalFold rs) r"
    by (auto simp: hasRecipient_iff)
qed

lemma noFoldDup_firstSeen: "noFoldDup equalFold (firstSeen equalFold rs)"
proof (induction rs rule: rev_induct)
  case Nil
  show ?case by (simp add: firstSeen_def)
next
  case (snoc r rs)
  then show ?case
    using set_firstSeen [of equalFold rs] by (auto simp: firstSeen_snoc noFoldDup_snoc)
qed

lemma foldl_addRecipient_firstSeen:
  assumes rfl: "\<forall>a. equalFold a a"
    and trn: "\<forall>a b c. equalFold a b \<longrightarrow> equalFold b c \<longrightarrow> equalFold a c"
  shows "t_to e = [] \<Longrightarrow> t_to (foldl (addRecipient equalFold) e rs) = firstSeen equalFold rs"
proof (induction rs rule: rev_induct)
  case Nil
  then show ?case by (simp add: firstSeen_def)
next
  case (snoc r rs)
  then show ?case
    by (simp add: addRecipient_def firstSeen_snoc hasRecipient_firstSeen [OF rfl trn])
qed

lemma rcptSeq_row:
  "currentKey s \<noteq> [] \<Longrightarrow> transactions g (currentKey s) = Some e \<Longrightarrow>
   \<exists>g'. rcptSeq lib s g rs = (replicate (length rs) Ok, s, g') \<and>
        transactions g' (currentKey s) =
          Some (foldl (addRecipient (strings_EqualFold lib)) e (map fst rs)) \<and>
        (\<forall>k. k \<noteq> currentKey s \<longrightarrow> transactions g' k = transactions g k)"
proof (induction rs arbitrary: g e)
  case Nil
  then show ?case by simp
next
  case (Cons p rs)
  obtain rcpt now where p: "p = (rcpt, now)" by (cases p)
  let ?g1 = "g\<lparr>transactions :=
                 (transactions g)(currentKey s \<mapsto> addRecipient (strings_EqualFold lib) e rcpt),
               timeouts := (timeouts g)(currentKey s \<mapsto> now)\<rparr>"
  have step: "Rcpt lib s g rcpt now = (Ok, s, ?g1)"
    using Cons.prems by (simp add: Rcpt_def)
  have row: "transactions ?g1 (currentKey s) = Some (addRecipient (strings_EqualFold lib) e rcpt)"
    by simp
  from Cons.IH [OF Cons.prems(1) row] obtain g' where
    g': "rcptSeq lib s ?g1 rs = (replicate (length rs) Ok, s, g')"
        "transactions g' (currentKey s) =
           Some (foldl (addRecipient (strings_EqualFold lib))
                   (addRecipient (strings_EqualFold lib) e rcpt) (map fst rs))"
        "\<forall>k. k \<noteq> currentKey s \<longrightarrow> transactions g' k = transactions ?g1 k"
    by blast
  show ?case using g' by (simp add: p step)
qed

section \<open>RCPT before MAIL\<close>

text \<open>
  C9. A session that has no current key (a new session, or one after \<open>Reset\<close>: no
  \<open>Mail\<close> has set the key) gets the error \<open>no active transaction\<close> from \<open>Rcpt\<close>, the
  protocol sequence error of the specification, and neither the session nor the shared
  store is changed: no row is created.
\<close>

theorem Rcpt_without_Mail_fails:
  "currentKey s = [] \<Longrightarrow> Rcpt lib s g rcpt now = (Err ''no active transaction'', s, g)"
  by (simp add: Rcpt_def)

theorem Rcpt_without_Mail_fails_witness:
  "currentKey (NewSession ''u1'') = [] \<and>
   Rcpt (ex_lib ex_entity_hi ex_reader_hi staleTwice) (NewSession ''u1'') NewTransactionManager
     ''c@co'' 7 =
     (Err ''no active transaction'', NewSession ''u1'', NewTransactionManager)"
proof -
  have h: "currentKey (NewSession ''u1'') = []"
    by (simp add: NewSession_def)
  show ?thesis
    using h Rcpt_without_Mail_fails [OF h, of "ex_lib ex_entity_hi ex_reader_hi staleTwice"
        NewTransactionManager "''c@co''" 7]
    by simp
qed

section \<open>Recipients: the invariant and the first-seen order\<close>

lemma processEmailContent_noFoldDup:
  "noFoldDup (strings_EqualFold lib) (t_to e) \<Longrightarrow>
   processEmailContent lib msg data (Some e) = (res, Some e') \<Longrightarrow>
   noFoldDup (strings_EqualFold lib) (t_to e')"
  by (auto simp: processEmailContent_def appendData_def Let_def foldl_addRecipient_noFoldDup
           split: sum.splits list.splits)

text \<open>
  C8. The recipient list never holds two entries that are equal under
  \<open>strings.EqualFold\<close>, whatever that function computes: the invariant \<open>noFoldDup\<close> is
  kept by \<open>addRecipient\<close> (the only place that appends to the list), holds of the empty
  list of a new transaction and after \<open>resetAll\<close>, and is kept by
  \<open>processEmailContent\<close>, which adds the addresses of the \<open>To\<close> header through
  \<open>addRecipient\<close>. Since \<open>strings.EqualFold\<close> is reflexive and transitive, a sequence of
  \<open>Rcpt\<close> calls on the row that \<open>Mail\<close> opened succeeds call by call and leaves in the
  row exactly the distinct addresses in first-seen order, \<open>firstSeen\<close> of the arguments.
\<close>

theorem recipients_distinct_first_seen:
  "(noFoldDup (strings_EqualFold lib) (t_to e) \<longrightarrow>
      noFoldDup (strings_EqualFold lib) (t_to (addRecipient (strings_EqualFold lib) e rcpt))) \<and>
   noFoldDup (strings_EqualFold lib) (t_to (newTransaction frm)) \<and>
   noFoldDup (strings_EqualFold lib) (t_to (resetAll e)) \<and>
   (noFoldDup (strings_EqualFold lib) (t_to e) \<longrightarrow>
      processEmailContent lib msg data (Some e) = (res, Some e1) \<longrightarrow>
      noFoldDup (strings_EqualFold lib) (t_to e1)) \<and>
   ((\<forall>a. strings_EqualFold lib a a) \<longrightarrow>
    (\<forall>a b c. strings_EqualFold lib a b \<longrightarrow> strings_EqualFold lib b c \<longrightarrow>
       strings_EqualFold lib a c) \<longrightarrow>
    currentKey s \<noteq> [] \<longrightarrow> transactions g (currentKey s) = Some e0 \<longrightarrow> t_to e0 = [] \<longrightarrow>
      (\<exists>g' e'. rcptSeq lib s g calls = (replicate (length calls) Ok, s, g') \<and>
               transactions g' (currentKey s) = Some e' \<and>
               t_to e' = firstSeen (strings_EqualFold lib) (map fst calls) \<and>
               noFoldDup (strings_EqualFold lib) (t_to e')))"
proof -
  let ?F = "strings_EqualFold lib"
  have a: "noFoldDup ?F (t_to e) \<longrightarrow> noFoldDup ?F (t_to (addRecipient ?F e rcpt))"
    by (simp add: addRecipient_noFoldDup)
  have b: "noFoldDup ?F (t_to (newTransaction frm))"
    by (simp add: newTransaction_def)
  have c: "noFoldDup ?F (t_to (resetAll e))"
    by (simp add: resetAll_def resetDataBuffers_def)
  have d: "noFoldDup ?F (t_to e) \<longrightarrow> processEmailContent lib msg data (Some e) = (res, Some e1) \<longrightarrow>
      noFoldDup ?F (t_to e1)"
    using processEmailContent_noFoldDup by blast
  have f: "(\<forall>a. ?F a a) \<longrightarrow> (\<forall>a b c. ?F a b \<longrightarrow> ?F b c \<longrightarrow> ?F a c) \<longrightarrow>
      currentKey s \<noteq> [] \<longrightarrow> transactions g (currentKey s) = Some e0 \<longrightarrow> t_to e0 = [] \<longrightarrow>
      (\<exists>g' e'. rcptSeq lib s g calls = (replicate (length calls) Ok, s, g') \<and>
               transactions g' (currentKey s) = Some e' \<and>
               t_to e' = firstSeen ?F (map fst calls) \<and>
               noFoldDup ?F (t_to e'))"
  proof (intro impI)
    assume rfl: "\<forall>a. ?F a a" and trn: "\<forall>a b c. ?F a b \<longrightarrow> ?F b c \<longrightarrow> ?F a c"
      and k: "currentKey s \<noteq> []" and row: "transactions g (currentKey s) = Some e0"
      and empty: "t_to e0 = []"
    from rcptSeq_row [OF k row, of lib calls] obtain g' where
      g': "rcptSeq lib s g calls = (replicate (length calls) Ok, s, g')"
          "transactions g' (currentKey s) = Some (foldl (addRecipient ?F) e0 (map fst calls))"
      by blast
    have "t_to (foldl (addRecipient ?F) e0 (map fst calls)) = firstSeen ?F (map fst calls)"
      using rfl trn empty by (rule foldl_addRecipient_firstSeen)
    with g' show "\<exists>g' e'. rcptSeq lib s g calls = (replicate (length calls) Ok, s, g') \<and>
               transactions g' (currentKey s) = Some e' \<and>
               t_to e' = firstSeen ?F (map fst calls) \<and>
               noFoldDup ?F (t_to e')"
      by (auto simp: noFoldDup_firstSeen)
  qed
  from a b c d f show ?thesis by blast
qed

lemma asciiEqualFold_refl: "\<forall>a. asciiEqualFold a a"
  by (simp add: asciiEqualFold_def)

lemma asciiEqualFold_trans:
  "\<forall>a b c. asciiEqualFold a b \<longrightarrow> asciiEqualFold b c \<longrightarrow> asciiEqualFold a c"
  by (simp add: asciiEqualFold_def)

theorem recipients_distinct_first_seen_witness:
  "noFoldDup asciiEqualFold (t_to ex_row) \<and>
   t_to (addRecipient asciiEqualFold ex_row ''B@CO'') = [''b@co''] \<and>
   noFoldDup asciiEqualFold (t_to (addRecipient asciiEqualFold ex_row ''B@CO'')) \<and>
   processEmailContent (ex_lib ex_entity_hi ex_reader_hi staleTwice) ex_entity ''x'' (Some ex_row) =
     (Ok, Some (ex_row\<lparr>t_to := [''b@co'', ''c@co''], dataBuffers := [''x'']\<rparr>)) \<and>
   noFoldDup asciiEqualFold [''b@co'', ''c@co''] \<and>
   (\<forall>a. asciiEqualFold a a) \<and>
   currentKey ex_session \<noteq> [] \<and>
   transactions ex_store (currentKey ex_session) = Some (newTransaction ''a@co'') \<and>
   t_to (newTransaction ''a@co'') = [] \<and>
   (\<exists>g' e'. rcptSeq (ex_lib ex_entity_hi ex_reader_hi staleTwice) ex_session ex_store
               [(''b@co'', 1), (''B@CO'', 2), (''c@co'', 3)] =
               ([Ok, Ok, Ok], ex_session, g') \<and>
            transactions g' (currentKey ex_session) = Some e' \<and>
            t_to e' = [''b@co'', ''c@co''] \<and>
            noFoldDup asciiEqualFold (t_to e'))"
proof -
  let ?lib = "ex_lib ex_entity_hi ex_reader_hi staleTwice"
  have F: "strings_EqualFold ?lib = asciiEqualFold"
    by (simp add: ex_lib_def)
  have h1: "noFoldDup asciiEqualFold (t_to ex_row)"
    by (simp add: ex_row_def)
  have ev1: "t_to (addRecipient asciiEqualFold ex_row ''B@CO'') = [''b@co'']"
    by (simp add: ex_row_def addRecipient_def asciiEqualFold_def asciiToLower_def lowerByte_def)
  have h4: "processEmailContent ?lib ex_entity ''x'' (Some ex_row) =
     (Ok, Some (ex_row\<lparr>t_to := [''b@co'', ''c@co''], dataBuffers := [''x'']\<rparr>))"
    by (simp add: processEmailContent_def ex_entity_def ex_row_def addRecipient_def appendData_def
        ex_lib_def asciiEqualFold_def asciiToLower_def lowerByte_def)
  have h5: "currentKey ex_session \<noteq> []"
    by (simp add: ex_session_def)
  have h6: "transactions ex_store (currentKey ex_session) = Some (newTransaction ''a@co'')"
    by (simp add: ex_session_def ex_store_def)
  have h7: "t_to (newTransaction ''a@co'') = []"
    by (simp add: newTransaction_def)
  have fs: "firstSeen asciiEqualFold (map fst [(''b@co'', 1::int), (''B@CO'', 2), (''c@co'', 3)]) =
      [''b@co'', ''c@co'']"
    by (simp add: firstSeen_def asciiEqualFold_def asciiToLower_def lowerByte_def upt_rec)
  note T = recipients_distinct_first_seen [of ?lib ex_row "''B@CO''" "''a@co''" ex_entity "''x''" Ok
      "ex_row\<lparr>t_to := [''b@co'', ''c@co''], dataBuffers := [''x'']\<rparr>" ex_session ex_store
      "newTransaction ''a@co''" "[(''b@co'', 1), (''B@CO'', 2), (''c@co'', 3)]", unfolded F]
  from T h1 have p1: "noFoldDup asciiEqualFold (t_to (addRecipient asciiEqualFold ex_row ''B@CO''))"
    by blast
  from T h1 h4 have p2: "noFoldDup asciiEqualFold
      (t_to (ex_row\<lparr>t_to := [''b@co'', ''c@co''], dataBuffers := [''x'']\<rparr>))"
    by blast
  from T asciiEqualFold_refl asciiEqualFold_trans h5 h6 h7
  have p3: "\<exists>g' e'. rcptSeq ?lib ex_session ex_store [(''b@co'', 1), (''B@CO'', 2), (''c@co'', 3)] =
               (replicate (length [(''b@co'', 1::int), (''B@CO'', 2), (''c@co'', 3)]) Ok, ex_session, g') \<and>
            transactions g' (currentKey ex_session) = Some e' \<and>
            t_to e' = firstSeen asciiEqualFold (map fst [(''b@co'', 1::int), (''B@CO'', 2), (''c@co'', 3)]) \<and>
            noFoldDup asciiEqualFold (t_to e')"
    by blast
  from p3 have p3': "\<exists>g' e'. rcptSeq ?lib ex_session ex_store [(''b@co'', 1), (''B@CO'', 2), (''c@co'', 3)] =
               ([Ok, Ok, Ok], ex_session, g') \<and>
            transactions g' (currentKey ex_session) = Some e' \<and>
            t_to e' = [''b@co'', ''c@co''] \<and>
            noFoldDup asciiEqualFold (t_to e')"
    unfolding fs by (simp add: numeral_3_eq_3)
  from p2 have p2': "noFoldDup asciiEqualFold [''b@co'', ''c@co'']"
    by simp
  from h1 ev1 p1 h4 p2' asciiEqualFold_refl h5 h6 h7 p3' show ?thesis
    by (intro conjI)
qed

section \<open>Evaluation of runs, and the walk over the parts\<close>

lemmas run_defs = run_def NewSession_def NewTransactionManager_def Mail_def Rcpt_def Data_def
      Logout_def Reset_def ex_lib_def newTransaction_def addRecipient_def appendData_def
      processEmailContent_def ex_entity_hi_def ex_entity_noto_def fmt_d_def digits.simps
      asciiEqualFold_def asciiToLower_def lowerByte_def
      processEmail_def processEmail_message_def ex_reader_hi_def ex_reader_def addrs_def
      buildGraphMessage_def
      buildRecipients_def sendMail_def sendMail_loop.simps maxRetries_def alwaysDenied_def Let_def
      staleTwice_def Second_def Minute_def cleanup_def ex_payload_def

lemma ReplaceAll_nonempty: "s \<noteq> [] \<Longrightarrow> new \<noteq> [] \<Longrightarrow> ReplaceAll s old new \<noteq> []"
  by (cases s) auto

lemma substitute_nonempty: "html \<noteq> [] \<Longrightarrow> substitute html p \<noteq> []"
  by (cases p) (auto simp: ReplaceAll_nonempty)

lemma walkParts_before_html:
  "\<forall>p\<in>set before. \<not> readError p \<and> firstBody ''text/html'' [p] = [] \<Longrightarrow>
   \<exists>t' a'. walkParts (before @ rest) t [] a = walkParts rest t' [] a'"
proof (induction before arbitrary: t a)
  case Nil
  show ?case by auto
next
  case (Cons p ps)
  then show ?case
    by (cases p) (auto split: if_splits)
qed

lemma walkParts_after_html:
  "h \<noteq> [] \<Longrightarrow> \<forall>p\<in>set ps. \<not> readError p \<Longrightarrow>
   \<exists>t' a'. walkParts ps t h a = Inr (t', foldl substitute h ps, a')"
proof (induction ps arbitrary: t h a)
  case Nil
  show ?case by simp
next
  case (Cons p ps)
  show ?case
  proof (cases p)
    case (NextErr e)
    with Cons.prems show ?thesis by simp
  next
    case (InlinePart ct cidH body)
    have ne: "substitute h p \<noteq> []"
      using Cons.prems(1) by (rule substitute_nonempty)
    have rest: "\<forall>p\<in>set ps. \<not> readError p"
      using Cons.prems(2) by simp
    have plain: "ct = ''text/plain'' \<Longrightarrow> substitute h p = h"
      by (simp add: InlinePart imageTypes_def)
    have html: "ct = ''text/html'' \<Longrightarrow> substitute h p = h"
      by (simp add: InlinePart imageTypes_def)
    consider "ct = ''text/plain''" | "ct \<noteq> ''text/plain''" "ct = ''text/html''"
      | "ct \<noteq> ''text/plain''" "ct \<noteq> ''text/html''" by blast
    then show ?thesis
    proof cases
      case 1
      from Cons.IH [OF Cons.prems(1) rest, of "if t = [] then body else t" a]
      show ?thesis using 1 plain Cons.prems(1) by (simp add: InlinePart)
    next
      case 2
      from Cons.IH [OF Cons.prems(1) rest, of t a]
      show ?thesis using 2 html Cons.prems(1) by (simp add: InlinePart)
    next
      case 3
      from Cons.IH [OF ne rest, of t a]
      show ?thesis using 3 Cons.prems(1)
        by (cases "ct \<in> set imageTypes") (simp_all add: InlinePart Let_def)
    qed
  next
    case (AttachmentPart fn ct body)
    have rest: "\<forall>p\<in>set ps. \<not> readError p"
      using Cons.prems(2) by simp
    from Cons.IH [OF Cons.prems(1) rest, of t "a @ [fileAttachment fn ct body]"]
    show ?thesis by (simp add: AttachmentPart)
  qed
qed

lemma walkParts_bodies:
  "\<forall>p\<in>set ps. \<not> readError p \<Longrightarrow>
   \<exists>t' h' a'. walkParts ps t h a = Inr (t', h', a') \<and>
     t' = (if t \<noteq> [] then t else firstBody ''text/plain'' ps) \<and>
     (h' \<noteq> [] \<longleftrightarrow> h \<noteq> [] \<or> firstBody ''text/html'' ps \<noteq> [])"
proof (induction ps arbitrary: t h a)
  case Nil
  show ?case by simp
next
  case (Cons p ps)
  have rest: "\<forall>p\<in>set ps. \<not> readError p"
    using Cons.prems by simp
  show ?case
  proof (cases p)
    case (NextErr e)
    with Cons.prems show ?thesis by simp
  next
    case (InlinePart ct cidH body)
    consider "ct = ''text/plain''" | "ct \<noteq> ''text/plain''" "ct = ''text/html''"
      | "ct \<noteq> ''text/plain''" "ct \<noteq> ''text/html''" by blast
    then show ?thesis
    proof cases
      case 1
      from Cons.IH [OF rest, of "if t = [] then body else t" h a]
      show ?thesis using 1 by (auto simp: InlinePart)
    next
      case 2
      from Cons.IH [OF rest, of t "if h = [] then body else h" a]
      show ?thesis using 2 by (auto simp: InlinePart)
    next
      case 3
      let ?h1 = "if ct \<in> set imageTypes \<and> h \<noteq> []
                 then ReplaceAll h (''cid:'' @ Trim cidH ''<>'')
                        (''data:'' @ ct @ '';base64,'' @ EncodeToString body)
                 else h"
      have h1: "?h1 \<noteq> [] \<longleftrightarrow> h \<noteq> []"
        by (simp add: ReplaceAll_nonempty)
      from Cons.IH [OF rest, of t ?h1 a]
      show ?thesis using 3 h1 by (auto simp: InlinePart Let_def)
    qed
  next
    case (AttachmentPart fn ct body)
    from Cons.IH [OF rest, of t h "a @ [fileAttachment fn ct body]"]
    show ?thesis by (auto simp: AttachmentPart)
  qed
qed

section \<open>The delivery client: retries and backoff\<close>

text \<open>
  C2. The Graph endpoint answers the first two posts with an error that contains
  \<open>MailboxInfoStale\<close> and accepts the third. \<open>sendMail\<close> returns \<open>nil\<close> after three
  posts and two sleeps. The sleeps last 2 and 4 seconds, since the backoff before attempt
  number \<open>attempt\<close> (counted from 0) is \<open>1<<attempt\<close> seconds; the comment in the source
  and the specification say 1 and 2 seconds.
\<close>

theorem sendMail_stale_twice_sleeps:
  "sendMail staleTwice sender payload =
     (None, [Post sender payload, Sleep (2 * Second), Post sender payload,
             Sleep (4 * Second), Post sender payload]) \<and>
   sleeps (snd (sendMail staleTwice sender payload)) = [2 * Second, 4 * Second] \<and>
   sleeps (snd (sendMail staleTwice sender payload)) \<noteq> [1 * Second, 2 * Second]"
  by (simp add: sendMail_def sendMail_loop.simps maxRetries_def staleTwice_def Second_def)

section \<open>QUIT when the finalization fails\<close>

text \<open>
  When the send succeeds, \<open>Logout\<close> deletes the row and its timestamp.
\<close>

lemma Logout_ok_removes_row:
  "run (ex_lib ex_entity_hi ex_reader_hi staleTwice) ''u1''
      [MAIL ''a@co'' 1000 1000, RCPT ''b@co'' 2000, DATA (Inr ''raw'') 3000, QUIT] =
   \<lparr>session = \<lparr>sessionID = ''u1'', currentKey = ''u1:a@co:Hi'', activeEmail = ''a@co'',
               pendingKeys = []\<rparr>,
    store = \<lparr>transactions = Map.empty, timeouts = Map.empty\<rparr>,
    replies = [Ok, Ok, Ok, Ok],
    effects = [Post ''a@co'' ex_payload, Sleep 2000000000, Post ''a@co'' ex_payload,
               Sleep 4000000000, Post ''a@co'' ex_payload]\<rparr>"
  by (simp add: run_defs)

text \<open>
  C1. A session sends MAIL, RCPT, DATA and QUIT; the Graph endpoint refuses the post.
  \<open>Logout\<close> returns the error of \<open>processEmail\<close> before it reaches the two \<open>delete\<close>
  calls: after QUIT the store still holds the row of the transaction and its timestamp,
  where the specification says that the row is removed whatever the outcome.
\<close>

theorem Logout_failed_send_keeps_row:
  "run (ex_lib ex_entity_hi ex_reader_hi alwaysDenied) ''u1''
      [MAIL ''a@co'' 1000 1000, RCPT ''b@co'' 2000, DATA (Inr ''raw'') 3000, QUIT] =
   \<lparr>session = \<lparr>sessionID = ''u1'', currentKey = ''u1:a@co:Hi'', activeEmail = ''a@co'',
               pendingKeys = []\<rparr>,
    store = \<lparr>transactions =
               [''u1:a@co:Hi'' \<mapsto>
                  \<lparr>t_from = ''a@co'', t_to = [''b@co''], t_cc = [], t_bcc = [],
                   dataBuffers = [''raw'']\<rparr>],
             timeouts = [''u1:a@co:Hi'' \<mapsto> 3000]\<rparr>,
    replies = [Ok, Ok, Ok, Err ''failed to send email: graph API error: ErrorAccessDenied''],
    effects = [Post ''a@co'' ex_payload]\<rparr>"
  by (simp add: run_defs)

section \<open>DATA after the row was reclaimed\<close>

text \<open>
  C10. A session sends MAIL and RCPT and then stays silent for more than five minutes;
  a tick of \<open>cleanup\<close> deletes its row, while the session keeps its current key. The
  DATA that follows finds no row under the current key, skips the move to the final key
  and hands the \<open>nil\<close> pointer read from the store to \<open>processEmailContent\<close>, which
  panics. \<open>Rcpt\<close> in the same state returns the error \<open>transaction not found\<close>.
\<close>

theorem Data_after_cleanup_panics:
  "transactions (store (run (ex_lib ex_entity_hi ex_reader_hi staleTwice) ''u1''
      [MAIL ''a@co'' 1000 1000, RCPT ''b@co'' 2000, CLEANUP (2000 + 5 * Minute + 1)]))
      ''u1:a@co:1000'' = None \<and>
   currentKey (session (run (ex_lib ex_entity_hi ex_reader_hi staleTwice) ''u1''
      [MAIL ''a@co'' 1000 1000, RCPT ''b@co'' 2000, CLEANUP (2000 + 5 * Minute + 1)])) =
      ''u1:a@co:1000'' \<and>
   replies (run (ex_lib ex_entity_hi ex_reader_hi staleTwice) ''u1''
      [MAIL ''a@co'' 1000 1000, RCPT ''b@co'' 2000, CLEANUP (2000 + 5 * Minute + 1),
       DATA (Inr ''raw'') (2000 + 6 * Minute)]) =
     [Ok, Ok, Panic ''runtime error: invalid memory address or nil pointer dereference''] \<and>
   replies (run (ex_lib ex_entity_hi ex_reader_hi staleTwice) ''u1''
      [MAIL ''a@co'' 1000 1000, RCPT ''b@co'' 2000, CLEANUP (2000 + 5 * Minute + 1),
       RCPT ''c@co'' (2000 + 6 * Minute)]) =
     [Ok, Ok, Err ''transaction not found'']"
  by (simp add: run_defs)

section \<open>MAIL opens a row\<close>

text \<open>
  C3. \<open>Mail\<close> always returns \<open>nil\<close>, makes the key built from the session id, the
  sender and the clock reading the current key of the session, and stores under it a new
  row with that sender and no recipients, with a fresh timestamp. It deletes nothing:
  every other key of the store keeps its row and its timestamp, the row of the session's
  previous transaction included.
\<close>

theorem Mail_opens_row_keeps_others:
  "\<exists>s' g'. Mail s g frm transactionTime now = (Ok, s', g') \<and>
     s' = s\<lparr>activeEmail := frm,
            currentKey := sessionID s @ '':'' @ frm @ '':'' @ fmt_d transactionTime\<rparr> \<and>
     transactions g' (currentKey s') = Some (newTransaction frm) \<and>
     timeouts g' (currentKey s') = Some now \<and>
     (\<forall>key. key \<noteq> currentKey s' \<longrightarrow>
        transactions g' key = transactions g key \<and> timeouts g' key = timeouts g key)"
  by (simp add: Mail_def Let_def)

theorem Mail_opens_row_keeps_others_witness:
  "\<exists>s' g'. Mail ex_session ex_store ''c@co'' 3000 3000 = (Ok, s', g') \<and>
     currentKey s' = ''u1:c@co:3000'' \<and>
     currentKey ex_session \<noteq> currentKey s' \<and>
     transactions g' (currentKey s') = Some (newTransaction ''c@co'') \<and>
     transactions g' (currentKey ex_session) = Some (newTransaction ''a@co'')"
proof -
  from Mail_opens_row_keeps_others [of ex_session ex_store "''c@co''" 3000 3000]
  obtain s' g' where
    m: "Mail ex_session ex_store ''c@co'' 3000 3000 = (Ok, s', g')"
    and s': "s' = ex_session\<lparr>activeEmail := ''c@co'',
            currentKey := sessionID ex_session @ '':'' @ ''c@co'' @ '':'' @ fmt_d 3000\<rparr>"
    and row: "transactions g' (currentKey s') = Some (newTransaction ''c@co'')"
    and others: "\<forall>key. key \<noteq> currentKey s' \<longrightarrow>
        transactions g' key = transactions ex_store key \<and> timeouts g' key = timeouts ex_store key"
    by blast
  have k: "currentKey s' = ''u1:c@co:3000''"
    by (simp add: s' ex_session_def fmt_d_def digits.simps)
  have ne: "currentKey ex_session \<noteq> currentKey s'"
    by (simp add: k ex_session_def)
  from others ne have "transactions g' (currentKey ex_session) =
      transactions ex_store (currentKey ex_session)"
    by blast
  then have old: "transactions g' (currentKey ex_session) = Some (newTransaction ''a@co'')"
    by (simp add: ex_session_def ex_store_def)
  from m k ne row old show ?thesis by blast
qed

text \<open>
  The claim as the specification states it fails: after MAIL, RCPT and a second MAIL the
  row of the first transaction is still in the store under its key.
\<close>

theorem Mail_leaves_prior_row:
  "transactions (store (run (ex_lib ex_entity_hi ex_reader_hi staleTwice) ''u1''
      [MAIL ''a@co'' 1000 1000, RCPT ''b@co'' 2000, MAIL ''c@co'' 3000 3000]))
      ''u1:a@co:1000'' =
     Some \<lparr>t_from = ''a@co'', t_to = [''b@co''], t_cc = [], t_bcc = [], dataBuffers = []\<rparr>"
  by (simp add: run_defs)

section \<open>DATA and the recipient list\<close>

lemma foldl_addRecipient_frame:
  "dataBuffers (foldl (addRecipient equalFold) e rs) = dataBuffers e \<and>
   t_from (foldl (addRecipient equalFold) e rs) = t_from e"
  by (induction rs arbitrary: e) (simp_all add: addRecipient_def)

lemma foldl_addRecipient_to_cong:
  "t_to e = t_to e' \<Longrightarrow> t_to (foldl (addRecipient equalFold) e rs) = t_to (foldl (addRecipient equalFold) e' rs)"
proof (induction rs arbitrary: e e')
  case Nil
  then show ?case by simp
next
  case (Cons r rs)
  have "t_to (addRecipient equalFold e r) = t_to (addRecipient equalFold e' r)"
    using Cons.prems by (simp add: addRecipient_def)
  from Cons.IH [OF this] show ?case by simp
qed

lemma foldl_addRecipient_from_update:
  "t_to (foldl (addRecipient equalFold) (e\<lparr>t_from := x\<rparr>) rs) = t_to (foldl (addRecipient equalFold) e rs)"
  by (rule foldl_addRecipient_to_cong) simp

text \<open>
  C4. \<open>Data\<close> fails with \<open>no active transaction\<close> when the session has no current key.
  It never looks at the recipient list: when the row exists under the current key, the
  stream is read and parsed, and the final key differs from the current key, the call
  returns \<open>nil\<close>, moves the row to the final key, adds the addresses of the \<open>To\<close> header
  as recipients and appends the raw bytes as one segment, whatever the number of
  recipients was. A transaction that still has no recipient is refused later, by
  \<open>processEmail\<close> at QUIT.
\<close>

theorem Data_checks_key_not_recipients:
  "(currentKey s = [] \<longrightarrow> Data lib s g r now = (Err ''no active transaction'', s, g)) \<and>
   (currentKey s \<noteq> [] \<longrightarrow> transactions g (currentKey s) = Some tx \<longrightarrow>
    message_Read lib raw = Inr msg \<longrightarrow>
    finalKey = sessionID s @ '':'' @ activeEmail s @ '':'' @
               (if e_Subject msg = [] then ''No Subject'' else e_Subject msg) \<longrightarrow>
    finalKey \<noteq> currentKey s \<longrightarrow>
    (\<exists>g' tx'. Data lib s g (Inr raw) now = (Ok, s\<lparr>currentKey := finalKey\<rparr>, g') \<and>
       transactions g' finalKey = Some tx' \<and>
       dataBuffers tx' = dataBuffers tx @ [raw] \<and>
       t_to tx' = t_to (foldl (addRecipient (strings_EqualFold lib)) tx (addrs (e_To msg))) \<and>
       transactions g' (currentKey s) = None \<and>
       timeouts g' finalKey = Some now)) \<and>
   (t_to tx = [] \<longrightarrow>
      processEmail lib tx = (Some ''invalid email transaction: missing required fields'', []))"
proof -
  have a: "currentKey s = [] \<longrightarrow> Data lib s g r now = (Err ''no active transaction'', s, g)"
    by (simp add: Data_def)
  have c: "t_to tx = [] \<longrightarrow>
      processEmail lib tx = (Some ''invalid email transaction: missing required fields'', [])"
    by (simp add: processEmail_def processEmail_message_def)
  have b: "currentKey s \<noteq> [] \<longrightarrow> transactions g (currentKey s) = Some tx \<longrightarrow>
    message_Read lib raw = Inr msg \<longrightarrow>
    finalKey = sessionID s @ '':'' @ activeEmail s @ '':'' @
               (if e_Subject msg = [] then ''No Subject'' else e_Subject msg) \<longrightarrow>
    finalKey \<noteq> currentKey s \<longrightarrow>
    (\<exists>g' tx'. Data lib s g (Inr raw) now = (Ok, s\<lparr>currentKey := finalKey\<rparr>, g') \<and>
       transactions g' finalKey = Some tx' \<and>
       dataBuffers tx' = dataBuffers tx @ [raw] \<and>
       t_to tx' = t_to (foldl (addRecipient (strings_EqualFold lib)) tx (addrs (e_To msg))) \<and>
       transactions g' (currentKey s) = None \<and>
       timeouts g' finalKey = Some now)"
    by (cases "e_From msg"; cases "e_To msg")
       (auto simp: Data_def Let_def processEmailContent_def appendData_def addrs_def
          foldl_addRecipient_frame foldl_addRecipient_from_update split: list.splits)
  from a b c show ?thesis by blast
qed

theorem Data_checks_key_not_recipients_witness:
  "currentKey (NewSession ''u1'') = [] \<and>
   Data (ex_lib ex_entity_noto ex_reader_hi staleTwice) (NewSession ''u1'') ex_store (Inr ''raw'') 3000 =
     (Err ''no active transaction'', NewSession ''u1'', ex_store) \<and>
   currentKey ex_session \<noteq> [] \<and>
   transactions ex_store (currentKey ex_session) = Some (newTransaction ''a@co'') \<and>
   t_to (newTransaction ''a@co'') = [] \<and>
   ''u1:a@co:Hi'' \<noteq> currentKey ex_session \<and>
   (\<exists>g' tx'. Data (ex_lib ex_entity_noto ex_reader_hi staleTwice) ex_session ex_store (Inr ''raw'') 3000 =
               (Ok, ex_session\<lparr>currentKey := ''u1:a@co:Hi''\<rparr>, g') \<and>
            transactions g' ''u1:a@co:Hi'' = Some tx' \<and>
            dataBuffers tx' = [''raw''] \<and>
            t_to tx' = [] \<and>
            transactions g' (currentKey ex_session) = None \<and>
            timeouts g' ''u1:a@co:Hi'' = Some 3000) \<and>
   processEmail (ex_lib ex_entity_noto ex_reader_hi staleTwice) (newTransaction ''a@co'') =
     (Some ''invalid email transaction: missing required fields'', [])"
proof -
  let ?lib = "ex_lib ex_entity_noto ex_reader_hi staleTwice"
  have h0: "currentKey (NewSession ''u1'') = []"
    by (simp add: NewSession_def)
  have h1: "currentKey ex_session \<noteq> []"
    by (simp add: ex_session_def)
  have h2: "transactions ex_store (currentKey ex_session) = Some (newTransaction ''a@co'')"
    by (simp add: ex_session_def ex_store_def)
  have h3: "message_Read ?lib ''raw'' = Inr ex_entity_noto"
    by (simp add: ex_lib_def)
  have h4: "''u1:a@co:Hi'' = sessionID ex_session @ '':'' @ activeEmail ex_session @ '':'' @
               (if e_Subject ex_entity_noto = [] then ''No Subject'' else e_Subject ex_entity_noto)"
    by (simp add: ex_session_def ex_entity_noto_def)
  have h5: "''u1:a@co:Hi'' \<noteq> currentKey ex_session"
    by (simp add: ex_session_def)
  have h6: "t_to (newTransaction ''a@co'') = []"
    by (simp add: newTransaction_def)
  note T0 = Data_checks_key_not_recipients [of "NewSession ''u1''" ?lib ex_store "Inr ''raw''" 3000]
  note T1 = Data_checks_key_not_recipients [of ex_session ?lib ex_store "Inr ''raw''" 3000
      "newTransaction ''a@co''" "''raw''" ex_entity_noto "''u1:a@co:Hi''"]
  from T0 h0 have a: "Data ?lib (NewSession ''u1'') ex_store (Inr ''raw'') 3000 =
     (Err ''no active transaction'', NewSession ''u1'', ex_store)"
    by blast
  from T1 h1 h2 h3 h4 h5 have "\<exists>g' tx'. Data ?lib ex_session ex_store (Inr ''raw'') 3000 =
               (Ok, ex_session\<lparr>currentKey := ''u1:a@co:Hi''\<rparr>, g') \<and>
            transactions g' ''u1:a@co:Hi'' = Some tx' \<and>
            dataBuffers tx' = dataBuffers (newTransaction ''a@co'') @ [''raw''] \<and>
            t_to tx' = t_to (foldl (addRecipient (strings_EqualFold ?lib)) (newTransaction ''a@co'')
                          (addrs (e_To ex_entity_noto))) \<and>
            transactions g' (currentKey ex_session) = None \<and>
            timeouts g' ''u1:a@co:Hi'' = Some 3000"
    by blast
  then have b: "\<exists>g' tx'. Data ?lib ex_session ex_store (Inr ''raw'') 3000 =
               (Ok, ex_session\<lparr>currentKey := ''u1:a@co:Hi''\<rparr>, g') \<and>
            transactions g' ''u1:a@co:Hi'' = Some tx' \<and>
            dataBuffers tx' = [''raw''] \<and>
            t_to tx' = [] \<and>
            transactions g' (currentKey ex_session) = None \<and>
            timeouts g' ''u1:a@co:Hi'' = Some 3000"
    by (simp add: newTransaction_def ex_entity_noto_def addrs_def)
  from T1 h6 have c: "processEmail ?lib (newTransaction ''a@co'') =
     (Some ''invalid email transaction: missing required fields'', [])"
    by blast
  from h0 a h1 h2 h6 h5 b c show ?thesis by blast
qed

text \<open>
  The claim as the specification states it fails: MAIL followed at once by DATA (a
  message without a \<open>To\<close> header) returns \<open>nil\<close>, and the row, still without a
  recipient, holds the segment.
\<close>

theorem Data_without_recipient_succeeds:
  "run (ex_lib ex_entity_noto ex_reader_hi staleTwice) ''u1''
      [MAIL ''a@co'' 1000 1000, DATA (Inr ''raw'') 3000] =
   \<lparr>session = \<lparr>sessionID = ''u1'', currentKey = ''u1:a@co:Hi'', activeEmail = ''a@co'',
               pendingKeys = []\<rparr>,
    store = \<lparr>transactions =
               [''u1:a@co:Hi'' \<mapsto>
                  \<lparr>t_from = ''a@co'', t_to = [], t_cc = [], t_bcc = [],
                   dataBuffers = [''raw'']\<rparr>],
             timeouts = [''u1:a@co:Hi'' \<mapsto> 3000]\<rparr>,
    replies = [Ok, Ok],
    effects = []\<rparr>"
  by (simp add: run_defs)

section \<open>The transformed message\<close>

lemmas msg_defs = ex_lib_def ex_reader_def ex_row2_def ex_image_def ex_html_def
  processEmail_message_def processEmail_def Let_def addrs_def buildGraphMessage_def buildRecipients_def
  asciiToLower_def lowerByte_def asciiEqualFold_def imageTypes_def Trim_def EncodeToString_def encodeStd_def
  fileAttachment_def

lemma buildRecipients_map: "buildRecipients list = map EmailAddress list"
  by (simp add: buildRecipients_def)

lemma known_iff:
  "(toLower rcpt \<notin> toLower ` set tos \<and> toLower rcpt \<notin> toLower ` set ccs) \<longleftrightarrow>
   list_all (\<lambda>a. toLower a \<noteq> toLower rcpt) (tos @ ccs)"
  by (auto simp: list_all_iff image_iff)

lemma processEmail_message_Inr:
  assumes rd: "mail_CreateReader lib (concat (dataBuffers tx)) = Inr rd"
    and gm: "processEmail_message lib tx = Inr gm"
  shows "\<exists>textBody htmlBody atts.
      walkParts (r_parts rd) [] [] [] = Inr (textBody, htmlBody, atts) \<and>
      gm = buildGraphMessage (if r_Subject rd \<noteq> [] then r_Subject rd else ''No Subject'')
             (if htmlBody \<noteq> [] then ''HTML'' else ''Text'')
             (if htmlBody \<noteq> [] then htmlBody else textBody)
             (addrs (r_To rd)) (addrs (r_Cc rd))
             (filter (\<lambda>rcpt. list_all (\<lambda>a. strings_ToLower lib a \<noteq> strings_ToLower lib rcpt)
                               (addrs (r_To rd) @ addrs (r_Cc rd)))
                (t_to tx))
             atts"
proof (cases "walkParts (r_parts rd) [] [] []")
  case (Inl e)
  with gm rd show ?thesis
    by (simp add: processEmail_message_def Let_def split: if_splits)
next
  case (Inr w)
  obtain textBody htmlBody atts where w: "w = (textBody, htmlBody, atts)"
    by (cases w)
  from gm rd Inr w have
    "gm = buildGraphMessage (if r_Subject rd \<noteq> [] then r_Subject rd else ''No Subject'')
             (if htmlBody \<noteq> [] then ''HTML'' else ''Text'')
             (if htmlBody \<noteq> [] then htmlBody else textBody)
             (addrs (r_To rd)) (addrs (r_Cc rd))
             (filter (\<lambda>rcpt. list_all (\<lambda>a. strings_ToLower lib a \<noteq> strings_ToLower lib rcpt)
                               (addrs (r_To rd) @ addrs (r_Cc rd)))
                (t_to tx))
             atts"
    by (simp add: processEmail_message_def Let_def known_iff split: if_splits)
  with Inr w show ?thesis by blast
qed

lemma processEmail_message_walk:
  assumes valid: "t_from tx \<noteq> []" "t_to tx \<noteq> []" "dataBuffers tx \<noteq> []"
    and rd: "mail_CreateReader lib (concat (dataBuffers tx)) = Inr rd"
    and w: "walkParts (r_parts rd) [] [] [] = Inr (textBody, htmlBody, atts)"
  shows "processEmail_message lib tx =
     (if htmlBody = [] \<and> textBody = [] then Inl ''email has no body content''
      else Inr (buildGraphMessage (if r_Subject rd \<noteq> [] then r_Subject rd else ''No Subject'')
             (if htmlBody \<noteq> [] then ''HTML'' else ''Text'')
             (if htmlBody \<noteq> [] then htmlBody else textBody)
             (addrs (r_To rd)) (addrs (r_Cc rd))
             (filter (\<lambda>rcpt. list_all (\<lambda>a. strings_ToLower lib a \<noteq> strings_ToLower lib rcpt)
                               (addrs (r_To rd) @ addrs (r_Cc rd)))
                (t_to tx))
             atts))"
  using valid rd w by (simp add: processEmail_message_def Let_def known_iff)

lemma firstBody_split:
  "firstBody ctype ps \<noteq> [] \<Longrightarrow>
   \<exists>before cidH after.
     ps = before @ InlinePart ctype cidH (firstBody ctype ps) # after \<and>
     (\<forall>p\<in>set before. firstBody ctype [p] = [])"
proof (induction ps)
  case Nil
  then show ?case by simp
next
  case (Cons p ps)
  show ?case
  proof (cases "firstBody ctype [p] = []")
    case True
    have eq: "firstBody ctype (p # ps) = firstBody ctype ps"
      using True by (cases p) (auto split: if_splits)
    with Cons.prems have "firstBody ctype ps \<noteq> []" by simp
    from Cons.IH [OF this] obtain before cidH after where
      d: "ps = before @ InlinePart ctype cidH (firstBody ctype ps) # after"
         "\<forall>p\<in>set before. firstBody ctype [p] = []"
      by blast
    have "p # ps = (p # before) @ InlinePart ctype cidH (firstBody ctype (p # ps)) # after"
      using d(1) eq by simp
    moreover have "\<forall>q\<in>set (p # before). firstBody ctype [q] = []"
      using d(2) True by simp
    ultimately show ?thesis by blast
  next
    case False
    then obtain cidH body where p: "p = InlinePart ctype cidH body" "body \<noteq> []"
      by (cases p) (auto split: if_splits)
    then have "p # ps = [] @ InlinePart ctype cidH (firstBody ctype (p # ps)) # ps"
      by simp
    then show ?thesis by (metis empty_iff list.set(1))
  qed
qed

lemma walkParts_html_split:
  assumes before: "\<forall>p\<in>set before. \<not> readError p \<and> firstBody ''text/html'' [p] = []"
    and after: "\<forall>p\<in>set after. \<not> readError p"
    and html: "html \<noteq> []"
  shows "\<exists>t' a'. walkParts (before @ InlinePart ''text/html'' cidH html # after) [] [] [] =
           Inr (t', foldl substitute html after, a')"
proof -
  from walkParts_before_html [OF before, of "InlinePart ''text/html'' cidH html # after" "[]" "[]"]
  obtain t1 a1 where
    "walkParts (before @ InlinePart ''text/html'' cidH html # after) [] [] [] =
     walkParts (InlinePart ''text/html'' cidH html # after) t1 [] a1"
    by blast
  then have s1: "walkParts (before @ InlinePart ''text/html'' cidH html # after) [] [] [] =
     walkParts after t1 html a1"
    by simp
  from walkParts_after_html [OF html after, of t1 a1] obtain t' a' where
    "walkParts after t1 html a1 = Inr (t', foldl substitute html after, a')"
    by blast
  with s1 show ?thesis by simp
qed

lemma foldl_substitute_nonempty: "html \<noteq> [] \<Longrightarrow> foldl substitute html ps \<noteq> []"
  by (induction ps arbitrary: html) (simp_all add: substitute_nonempty)

lemma message_html_split:
  assumes valid: "t_from tx \<noteq> [] \<and> t_to tx \<noteq> [] \<and> dataBuffers tx \<noteq> []"
    and rd: "mail_CreateReader lib (concat (dataBuffers tx)) = Inr rd"
    and parts: "r_parts rd = before @ InlinePart ''text/html'' cidH html # after"
    and html: "html \<noteq> []"
    and before: "\<forall>p\<in>set before. \<not> readError p \<and> firstBody ''text/html'' [p] = []"
    and after: "\<forall>p\<in>set after. \<not> readError p"
  shows "\<exists>gm. processEmail_message lib tx = Inr gm \<and> body_contentType gm = ''HTML'' \<and>
              body_content gm = foldl substitute html after"
proof -
  from walkParts_html_split [OF before after html, of cidH] obtain t' a' where
    w: "walkParts (r_parts rd) [] [] [] = Inr (t', foldl substitute html after, a')"
    unfolding parts by blast
  have ne: "foldl substitute html after \<noteq> []"
    using html by (rule foldl_substitute_nonempty)
  from valid have v: "t_from tx \<noteq> []" "t_to tx \<noteq> []" "dataBuffers tx \<noteq> []"
    by simp_all
  show ?thesis
    using processEmail_message_walk [OF v rd w] ne
    by (simp add: buildGraphMessage_def)
qed

text \<open>
  C6. When \<open>processEmail\<close> builds a message, its \<open>bccRecipients\<close> are exactly the
  protocol recipients (the \<open>to\<close> list of the transaction, in order) that are absent
  from the parsed \<open>To\<close> and \<open>Cc\<close> headers under the case-insensitive comparison of
  \<open>processEmail\<close>, which compares the addresses after \<open>strings.ToLower\<close>; so every
  such recipient is among the \<open>bccRecipients\<close>. This holds whatever \<open>strings.ToLower\<close>
  computes.
\<close>

theorem bcc_inference:
  assumes rd: "mail_CreateReader lib (concat (dataBuffers tx)) = Inr rd"
    and gm: "processEmail_message lib tx = Inr gm"
  shows "bccRecipients gm =
           map EmailAddress
             (filter (\<lambda>rcpt. list_all (\<lambda>a. strings_ToLower lib a \<noteq> strings_ToLower lib rcpt)
                               (addrs (r_To rd) @ addrs (r_Cc rd)))
                (t_to tx)) \<and>
         (\<forall>rcpt\<in>set (t_to tx).
            (\<forall>a\<in>set (addrs (r_To rd) @ addrs (r_Cc rd)). strings_ToLower lib a \<noteq> strings_ToLower lib rcpt) \<longrightarrow>
            EmailAddress rcpt \<in> set (bccRecipients gm))"
proof -
  from processEmail_message_Inr [OF rd gm] obtain textBody htmlBody atts where
    "gm = buildGraphMessage (if r_Subject rd \<noteq> [] then r_Subject rd else ''No Subject'')
             (if htmlBody \<noteq> [] then ''HTML'' else ''Text'')
             (if htmlBody \<noteq> [] then htmlBody else textBody)
             (addrs (r_To rd)) (addrs (r_Cc rd))
             (filter (\<lambda>rcpt. list_all (\<lambda>a. strings_ToLower lib a \<noteq> strings_ToLower lib rcpt)
                               (addrs (r_To rd) @ addrs (r_Cc rd)))
                (t_to tx))
             atts"
    by blast
  then have bcc: "bccRecipients gm =
           map EmailAddress
             (filter (\<lambda>rcpt. list_all (\<lambda>a. strings_ToLower lib a \<noteq> strings_ToLower lib rcpt)
                               (addrs (r_To rd) @ addrs (r_Cc rd)))
                (t_to tx))"
    by (simp add: buildGraphMessage_def buildRecipients_map)
  show ?thesis
    unfolding bcc by (auto simp: list_all_iff)
qed

theorem bcc_inference_witness:
  "processEmail_message (ex_lib ex_entity_hi (ex_reader [''A@x''] [InlinePart ''text/plain'' [] ''hello'']) staleTwice)
     ex_row2 =
     Inr (buildGraphMessage ''Hi'' ''Text'' ''hello'' [''A@x''] [] [''b@x''] []) \<and>
   t_to ex_row2 = [''a@x'', ''b@x''] \<and>
   bccRecipients (buildGraphMessage ''Hi'' ''Text'' ''hello'' [''A@x''] [] [''b@x''] []) =
     [EmailAddress ''b@x''] \<and>
   EmailAddress ''b@x'' \<in>
     set (bccRecipients (buildGraphMessage ''Hi'' ''Text'' ''hello'' [''A@x''] [] [''b@x''] []))"
proof -
  let ?rd = "ex_reader [''A@x''] [InlinePart ''text/plain'' [] ''hello'']"
  let ?lib = "ex_lib ex_entity_hi ?rd staleTwice"
  let ?gm = "buildGraphMessage ''Hi'' ''Text'' ''hello'' [''A@x''] [] [''b@x''] []"
  have rd: "mail_CreateReader ?lib (concat (dataBuffers ex_row2)) = Inr ?rd"
    by (simp add: ex_lib_def)
  have gm: "processEmail_message ?lib ex_row2 = Inr ?gm"
    by (simp add: msg_defs)
  have to: "t_to ex_row2 = [''a@x'', ''b@x'']"
    by (simp add: ex_row2_def)
  have b: "''b@x'' \<in> set (t_to ex_row2)"
    by (simp add: to)
  have absent: "\<forall>a\<in>set (addrs (r_To ?rd) @ addrs (r_Cc ?rd)). strings_ToLower ?lib a \<noteq> strings_ToLower ?lib ''b@x''"
    by (simp add: ex_lib_def ex_reader_def addrs_def asciiEqualFold_def asciiToLower_def lowerByte_def)
  from bcc_inference [OF rd gm] have
    eq: "bccRecipients ?gm =
           map EmailAddress
             (filter (\<lambda>rcpt. list_all (\<lambda>a. strings_ToLower ?lib a \<noteq> strings_ToLower ?lib rcpt)
                               (addrs (r_To ?rd) @ addrs (r_Cc ?rd)))
                (t_to ex_row2))"
    and mem: "\<forall>rcpt\<in>set (t_to ex_row2).
            (\<forall>a\<in>set (addrs (r_To ?rd) @ addrs (r_Cc ?rd)). strings_ToLower ?lib a \<noteq> strings_ToLower ?lib rcpt) \<longrightarrow>
            EmailAddress rcpt \<in> set (bccRecipients ?gm)"
    by blast+
  from mem b absent have m: "EmailAddress ''b@x'' \<in> set (bccRecipients ?gm)"
    by blast
  have e: "bccRecipients ?gm = [EmailAddress ''b@x'']"
    unfolding eq by (simp add: to ex_lib_def ex_reader_def addrs_def asciiEqualFold_def asciiToLower_def lowerByte_def)
  from gm to e m show ?thesis by blast
qed

text \<open>
  C7. For a parsed message whose parts are all read without error: when some inline
  \<open>text/html\<close> part has a body that is not empty, the body of the message is the first
  such part (with the substitutions of the image parts that follow it) and the content
  type is \<open>HTML\<close>, whether or not a plain-text part is present; otherwise, when some
  inline \<open>text/plain\<close> part has a body that is not empty, the body is the first such
  part and the content type is \<open>Text\<close>; otherwise (an attachment-only message, for
  example) \<open>processEmail\<close> returns the error \<open>email has no body content\<close>, the content
  policy error of the specification, and nothing is sent.
\<close>

theorem body_html_else_text:
  assumes valid: "t_from tx \<noteq> [] \<and> t_to tx \<noteq> [] \<and> dataBuffers tx \<noteq> []"
    and rd: "mail_CreateReader lib (concat (dataBuffers tx)) = Inr rd"
    and noerr: "\<forall>p\<in>set (r_parts rd). \<not> readError p"
  shows
   "(firstBody ''text/html'' (r_parts rd) \<noteq> [] \<longrightarrow>
       (\<exists>gm before cidH after.
          r_parts rd =
            before @ InlinePart ''text/html'' cidH (firstBody ''text/html'' (r_parts rd)) # after \<and>
          (\<forall>p\<in>set before. firstBody ''text/html'' [p] = []) \<and>
          processEmail_message lib tx = Inr gm \<and> body_contentType gm = ''HTML'' \<and>
          body_content gm = foldl substitute (firstBody ''text/html'' (r_parts rd)) after)) \<and>
    (firstBody ''text/html'' (r_parts rd) = [] \<and> firstBody ''text/plain'' (r_parts rd) \<noteq> [] \<longrightarrow>
       (\<exists>gm. processEmail_message lib tx = Inr gm \<and> body_contentType gm = ''Text'' \<and>
             body_content gm = firstBody ''text/plain'' (r_parts rd))) \<and>
    (firstBody ''text/html'' (r_parts rd) = [] \<and> firstBody ''text/plain'' (r_parts rd) = [] \<longrightarrow>
       processEmail_message lib tx = Inl ''email has no body content'' \<and>
       processEmail lib tx = (Some ''email has no body content'', []))"
proof -
  from valid have v: "t_from tx \<noteq> []" "t_to tx \<noteq> []" "dataBuffers tx \<noteq> []"
    by simp_all
  from walkParts_bodies [OF noerr, of "[]" "[]" "[]"] obtain t' h' a' where
    w: "walkParts (r_parts rd) [] [] [] = Inr (t', h', a')"
    and t': "t' = firstBody ''text/plain'' (r_parts rd)"
    and h': "h' \<noteq> [] \<longleftrightarrow> firstBody ''text/html'' (r_parts rd) \<noteq> []"
    by auto
  note m = processEmail_message_walk [OF v rd w]
  have a: "firstBody ''text/html'' (r_parts rd) \<noteq> [] \<longrightarrow>
       (\<exists>gm before cidH after.
          r_parts rd =
            before @ InlinePart ''text/html'' cidH (firstBody ''text/html'' (r_parts rd)) # after \<and>
          (\<forall>p\<in>set before. firstBody ''text/html'' [p] = []) \<and>
          processEmail_message lib tx = Inr gm \<and> body_contentType gm = ''HTML'' \<and>
          body_content gm = foldl substitute (firstBody ''text/html'' (r_parts rd)) after)"
  proof
    assume ne: "firstBody ''text/html'' (r_parts rd) \<noteq> []"
    from firstBody_split [OF ne] obtain before cidH after where
      d: "r_parts rd =
            before @ InlinePart ''text/html'' cidH (firstBody ''text/html'' (r_parts rd)) # after"
         "\<forall>p\<in>set before. firstBody ''text/html'' [p] = []"
      by blast
    have b: "\<forall>p\<in>set before. \<not> readError p \<and> firstBody ''text/html'' [p] = []"
    proof
      fix p assume p: "p \<in> set before"
      then have "p \<in> set (r_parts rd)" by (subst d(1)) simp
      with noerr d(2) p show "\<not> readError p \<and> firstBody ''text/html'' [p] = []" by blast
    qed
    have af: "\<forall>p\<in>set after. \<not> readError p"
    proof
      fix p assume p: "p \<in> set after"
      then have "p \<in> set (r_parts rd)" by (subst d(1)) simp
      with noerr show "\<not> readError p" by blast
    qed
    from message_html_split [OF valid rd d(1) ne b af] d
    show "\<exists>gm before cidH after.
          r_parts rd =
            before @ InlinePart ''text/html'' cidH (firstBody ''text/html'' (r_parts rd)) # after \<and>
          (\<forall>p\<in>set before. firstBody ''text/html'' [p] = []) \<and>
          processEmail_message lib tx = Inr gm \<and> body_contentType gm = ''HTML'' \<and>
          body_content gm = foldl substitute (firstBody ''text/html'' (r_parts rd)) after"
      by blast
  qed
  have b: "firstBody ''text/html'' (r_parts rd) = [] \<and> firstBody ''text/plain'' (r_parts rd) \<noteq> [] \<longrightarrow>
       (\<exists>gm. processEmail_message lib tx = Inr gm \<and> body_contentType gm = ''Text'' \<and>
             body_content gm = firstBody ''text/plain'' (r_parts rd))"
    using m h' t' by (auto simp: buildGraphMessage_def)
  have c: "firstBody ''text/html'' (r_parts rd) = [] \<and> firstBody ''text/plain'' (r_parts rd) = [] \<longrightarrow>
       processEmail_message lib tx = Inl ''email has no body content'' \<and>
       processEmail lib tx = (Some ''email has no body content'', [])"
    using m h' t' by (auto simp: processEmail_def)
  from a b c show ?thesis by blast
qed

theorem body_html_else_text_witness:
  "(\<exists>gm before cidH after.
      [ex_plain, ex_bold] = before @ InlinePart ''text/html'' cidH ''<b>hello</b>'' # after \<and>
      (\<forall>p\<in>set before. firstBody ''text/html'' [p] = []) \<and>
      processEmail_message (ex_lib ex_entity_hi (ex_reader [''a@x''] [ex_plain, ex_bold]) staleTwice)
        ex_row2 = Inr gm \<and>
      body_contentType gm = ''HTML'' \<and>
      body_content gm = foldl substitute ''<b>hello</b>'' after) \<and>
   processEmail_message (ex_lib ex_entity_hi (ex_reader [''a@x''] [ex_plain, ex_bold]) staleTwice)
     ex_row2 =
     Inr (buildGraphMessage ''Hi'' ''HTML'' ''<b>hello</b>'' [''a@x''] [] [''b@x''] []) \<and>
   (\<exists>gm. processEmail_message (ex_lib ex_entity_hi (ex_reader [''a@x''] [ex_plain]) staleTwice)
           ex_row2 = Inr gm \<and>
         body_contentType gm = ''Text'' \<and> body_content gm = ''hello'') \<and>
   processEmail_message (ex_lib ex_entity_hi (ex_reader [''a@x''] [ex_file]) staleTwice) ex_row2 =
     Inl ''email has no body content'' \<and>
   processEmail (ex_lib ex_entity_hi (ex_reader [''a@x''] [ex_file]) staleTwice) ex_row2 =
     (Some ''email has no body content'', [])"
proof -
  let ?rd1 = "ex_reader [''a@x''] [ex_plain, ex_bold]"
  let ?rd2 = "ex_reader [''a@x''] [ex_plain]"
  let ?rd3 = "ex_reader [''a@x''] [ex_file]"
  have valid: "t_from ex_row2 \<noteq> [] \<and> t_to ex_row2 \<noteq> [] \<and> dataBuffers ex_row2 \<noteq> []"
    by (simp add: ex_row2_def)
  have rd: "mail_CreateReader (ex_lib ex_entity_hi rd staleTwice) (concat (dataBuffers ex_row2)) = Inr rd"
    for rd by (simp add: ex_lib_def)
  have ne1: "\<forall>p\<in>set (r_parts ?rd1). \<not> readError p"
    by (simp add: ex_reader_def ex_plain_def ex_bold_def)
  have ne2: "\<forall>p\<in>set (r_parts ?rd2). \<not> readError p"
    by (simp add: ex_reader_def ex_plain_def)
  have ne3: "\<forall>p\<in>set (r_parts ?rd3). \<not> readError p"
    by (simp add: ex_reader_def ex_file_def)
  have f1: "firstBody ''text/html'' [ex_plain, ex_bold] = ''<b>hello</b>''"
    by (simp add: ex_plain_def ex_bold_def)
  have f2: "firstBody ''text/html'' (r_parts ?rd2) = []" "firstBody ''text/plain'' (r_parts ?rd2) = ''hello''"
    by (simp_all add: ex_reader_def ex_plain_def)
  have f3: "firstBody ''text/html'' (r_parts ?rd3) = []" "firstBody ''text/plain'' (r_parts ?rd3) = []"
    by (simp_all add: ex_reader_def ex_file_def)
  have p1: "r_parts ?rd1 = [ex_plain, ex_bold]"
    by (simp add: ex_reader_def)
  note T1 = body_html_else_text [OF valid rd ne1]
  note T2 = body_html_else_text [OF valid rd ne2]
  note T3 = body_html_else_text [OF valid rd ne3]
  have a: "\<exists>gm before cidH after.
      [ex_plain, ex_bold] = before @ InlinePart ''text/html'' cidH ''<b>hello</b>'' # after \<and>
      (\<forall>p\<in>set before. firstBody ''text/html'' [p] = []) \<and>
      processEmail_message (ex_lib ex_entity_hi ?rd1 staleTwice) ex_row2 = Inr gm \<and>
      body_contentType gm = ''HTML'' \<and>
      body_content gm = foldl substitute ''<b>hello</b>'' after"
    using T1 unfolding p1 f1 by simp
  have a': "processEmail_message (ex_lib ex_entity_hi ?rd1 staleTwice) ex_row2 =
     Inr (buildGraphMessage ''Hi'' ''HTML'' ''<b>hello</b>'' [''a@x''] [] [''b@x''] [])"
    by (simp add: msg_defs ex_plain_def ex_bold_def)
  have b: "\<exists>gm. processEmail_message (ex_lib ex_entity_hi ?rd2 staleTwice) ex_row2 = Inr gm \<and>
         body_contentType gm = ''Text'' \<and> body_content gm = ''hello''"
    using T2 unfolding f2 by simp
  have c: "processEmail_message (ex_lib ex_entity_hi ?rd3 staleTwice) ex_row2 =
     Inl ''email has no body content'' \<and>
   processEmail (ex_lib ex_entity_hi ?rd3 staleTwice) ex_row2 =
     (Some ''email has no body content'', [])"
    using T3 unfolding f3 by simp
  from a a' b c show ?thesis by blast
qed

text \<open>
  Without the condition on the parts the claim fails: a parsed message with a plain-text
  part followed by a part whose read fails gets neither the plain-text body nor the
  content policy error; \<open>processEmail\<close> returns the error of \<open>NextPart\<close> and sends
  nothing.
\<close>

theorem body_lost_when_part_fails:
  "processEmail_message
     (ex_lib ex_entity_hi (ex_reader [''a@x''] [ex_plain, NextErr ''unexpected EOF'']) staleTwice)
     ex_row2 =
     Inl ''failed to read MIME part: unexpected EOF'' \<and>
   processEmail
     (ex_lib ex_entity_hi (ex_reader [''a@x''] [ex_plain, NextErr ''unexpected EOF'']) staleTwice)
     ex_row2 =
     (Some ''failed to read MIME part: unexpected EOF'', [])"
  by (simp add: msg_defs ex_plain_def)

text \<open>
  C5. The \<open>cid:\<close> references of the HTML body are replaced while the parts are walked,
  not after the walk: when the first inline \<open>text/html\<close> part with a body comes after
  the parts \<open>before\<close> and is followed by the parts \<open>after\<close>, the body of the message is
  that HTML with the substitutions of the image parts in \<open>after\<close> applied in order. The
  image parts in \<open>before\<close> contribute nothing.
\<close>

theorem cid_substitution_after_html:
  assumes valid: "t_from tx \<noteq> [] \<and> t_to tx \<noteq> [] \<and> dataBuffers tx \<noteq> []"
    and rd: "mail_CreateReader lib (concat (dataBuffers tx)) = Inr rd"
    and parts: "r_parts rd = before @ InlinePart ''text/html'' cidH html # after"
    and html: "html \<noteq> []"
    and before: "\<forall>p\<in>set before. \<not> readError p \<and> firstBody ''text/html'' [p] = []"
    and after: "\<forall>p\<in>set after. \<not> readError p"
  shows "\<exists>gm. processEmail_message lib tx = Inr gm \<and> body_contentType gm = ''HTML'' \<and>
              body_content gm = foldl substitute html after"
  using valid rd parts html before after by (rule message_html_split)

theorem cid_substitution_after_html_witness:
  "(\<exists>gm. processEmail_message
           (ex_lib ex_entity_hi (ex_reader [''a@x''] [ex_image, ex_html, ex_image]) staleTwice)
           ex_row2 = Inr gm \<and>
         body_contentType gm = ''HTML'' \<and>
         body_content gm = ''<img src=data:image/png;base64,UE5H>'') \<and>
   foldl substitute ''<img src=cid:logo>'' [ex_image] = ''<img src=data:image/png;base64,UE5H>''"
proof -
  let ?rd = "ex_reader [''a@x''] [ex_image, ex_html, ex_image]"
  let ?lib = "ex_lib ex_entity_hi ?rd staleTwice"
  have valid: "t_from ex_row2 \<noteq> [] \<and> t_to ex_row2 \<noteq> [] \<and> dataBuffers ex_row2 \<noteq> []"
    by (simp add: ex_row2_def)
  have rd: "mail_CreateReader ?lib (concat (dataBuffers ex_row2)) = Inr ?rd"
    by (simp add: ex_lib_def)
  have parts: "r_parts ?rd = [ex_image] @ InlinePart ''text/html'' [] ''<img src=cid:logo>'' # [ex_image]"
    by (simp add: ex_reader_def ex_html_def)
  have html: "''<img src=cid:logo>'' \<noteq> []"
    by simp
  have before: "\<forall>p\<in>set [ex_image]. \<not> readError p \<and> firstBody ''text/html'' [p] = []"
    by (simp add: ex_image_def)
  have after: "\<forall>p\<in>set [ex_image]. \<not> readError p"
    by (simp add: ex_image_def)
  have sub: "foldl substitute ''<img src=cid:logo>'' [ex_image] =
      ''<img src=data:image/png;base64,UE5H>''"
    by (simp add: ex_image_def imageTypes_def Trim_def EncodeToString_def encodeStd_def)
  from cid_substitution_after_html [OF valid rd parts html before after]
  show ?thesis unfolding sub by simp
qed

text \<open>
  The claim as the specification states it fails: with the image part before the HTML
  part the reference \<open>cid:logo\<close> stays in the body; with the same two parts in the
  other order it is replaced by the data URI.
\<close>

theorem cid_kept_when_image_first:
  "processEmail_message
     (ex_lib ex_entity_hi (ex_reader [''a@x''] [ex_image, ex_html]) staleTwice) ex_row2 =
   Inr (buildGraphMessage ''Hi'' ''HTML'' ''<img src=cid:logo>'' [''a@x''] [] [''b@x''] []) \<and>
   processEmail_message
     (ex_lib ex_entity_hi (ex_reader [''a@x''] [ex_html, ex_image]) staleTwice) ex_row2 =
   Inr (buildGraphMessage ''Hi'' ''HTML'' ''<img src=data:image/png;base64,UE5H>''
          [''a@x''] [] [''b@x''] [])"
  by (simp add: msg_defs)

end
